theory Spec2Isabelle
  imports Main "HOL-Library.Sublist"
begin

text \<open>
  A model of \<open>proxy_target_resolver.py\<close>: the classifier \<open>proxypass_target\<close>, the three
  functions that run an external command (\<open>check_port_usage\<close>, \<open>check_unix_socket_usage\<close>,
  \<open>get_systemctl_service\<close> with its parser), and the loop of \<open>resolve_targets\<close>. An
  exception is a value (\<open>Inl\<close>), the local variables of the loop are a record that each
  step returns updated, and the external commands are a parameter.
\<close>

section \<open>Python strings\<close>

text \<open>
  A Python \<open>str\<close> is modelled as a \<open>string\<close>; a character is a code point below 256.
  \<open>isspace\<close> is \<open>str.isspace\<close> on one character: the code points 9 to 13, 28 to 32,
  133 and 160.
\<close>

definition isspace :: "char \<Rightarrow> bool" where
  "isspace c = (c \<in> {CHR 0x09, CHR 0x0A, CHR 0x0B, CHR 0x0C, CHR 0x0D,
                     CHR 0x1C, CHR 0x1D, CHR 0x1E, CHR 0x1F, CHR 0x20, CHR 0x85, CHR 0xA0})"

text \<open>\<open>s.strip()\<close> and \<open>s.strip(q)\<close> for a one-character \<open>q\<close>.\<close>

definition strip :: "string \<Rightarrow> string" where
  "strip s = rev (dropWhile isspace (rev (dropWhile isspace s)))"

definition strip_char :: "char \<Rightarrow> string \<Rightarrow> string" where
  "strip_char q s = rev (dropWhile (\<lambda>c. c = q) (rev (dropWhile (\<lambda>c. c = q) s)))"

text \<open>\<open>s.split()\<close>: the maximal runs of characters that are not whitespace.\<close>

fun split_ws_acc :: "string \<Rightarrow> string \<Rightarrow> string list" where
  "split_ws_acc w [] = (if w = [] then [] else [rev w])"
| "split_ws_acc w (c # cs) =
     (if isspace c then (if w = [] then split_ws_acc [] cs else rev w # split_ws_acc [] cs)
      else split_ws_acc (c # w) cs)"

definition split_ws :: "string \<Rightarrow> string list" where
  "split_ws s = split_ws_acc [] s"

text \<open>\<open>s.split(sep)\<close> for a one-character \<open>sep\<close>: empty fields are kept, and the result
  is never empty.\<close>

fun split_on :: "char \<Rightarrow> string \<Rightarrow> string list" where
  "split_on sep [] = [[]]"
| "split_on sep (c # cs) =
     (if c = sep then [] # split_on sep cs
      else (case split_on sep cs of [] \<Rightarrow> [[c]] | f # fs \<Rightarrow> (c # f) # fs))"

text \<open>\<open>sub in s\<close> on strings, and \<open>s.startswith(p)\<close> is \<open>prefix p s\<close>.\<close>

fun contains :: "string \<Rightarrow> string \<Rightarrow> bool" where
  "contains sub [] = (sub = [])"
| "contains sub (c # cs) = (prefix sub (c # cs) \<or> contains sub cs)"

section \<open>Exceptions\<close>

datatype error = ValueError | TypeError | AttributeError | IndexError

text \<open>\<open>xs[i]\<close> on a list: IndexError out of range.\<close>

definition index :: "'a list \<Rightarrow> nat \<Rightarrow> error + 'a" where
  "index xs i = (if i < length xs then Inr (xs ! i) else Inl IndexError)"

section \<open>proxypass_target\<close>

text \<open>
  The loop over \<open>line.split()\<close> returns at the first part that has a \<open>|\<close>, or starts
  with a double quote followed by \<open>http\<close>, or with a double quote followed by \<open>unix:\<close>;
  after the loop the result is \<open>(None, None)\<close>.
\<close>

definition dquote :: char where
  "dquote = CHR 0x22"

fun proxypass_parts :: "string list \<Rightarrow> error + (string option \<times> string option)" where
  "proxypass_parts [] = Inr (None, None)"
| "proxypass_parts (part # parts) =
     (if CHR ''|'' \<in> set part then
        (case index (split_on CHR ''|'' part) 0 of
           Inl e \<Rightarrow> Inl e
         | Inr part_1 \<Rightarrow>
            (case index (split_on CHR ''|'' part) 1 of
               Inl e \<Rightarrow> Inl e
             | Inr part_2 \<Rightarrow> Inr (Some (strip_char dquote part_1), Some (strip_char dquote part_2))))
      else if prefix (dquote # ''http'') part then Inr (Some (strip_char dquote part), None)
      else if prefix (dquote # ''unix:'') part then Inr (Some (strip_char dquote part), None)
      else proxypass_parts parts)"

definition proxypass_target :: "string \<Rightarrow> error + (string option \<times> string option)" where
  "proxypass_target line = proxypass_parts (split_ws line)"

section \<open>The operating system\<close>

text \<open>
  \<open>subprocess.run(argv, ...)\<close> either raises (\<open>Inl\<close>, with the text of the exception) or
  gives the standard output of the command (\<open>Inr\<close>). The answer may change from one call
  to the next: the first argument counts the commands run before this one.
\<close>

type_synonym os = "nat \<Rightarrow> string list \<Rightarrow> string + string"

text \<open>
  A probe result: a list of entries, or the error text of \<open>check_port_usage\<close>. The
  probes of the source give entries that are strings; \<open>resolve_targets\<close> also reads an
  entry as a dict with a \<open>name\<close> key, so an entry is a string or a dict of strings.
\<close>

datatype entry = EStr string | EDict "(string \<times> string) list"

datatype usage = UList "entry list" | UStr string

definition check_port_usage :: "os \<Rightarrow> nat \<Rightarrow> string \<Rightarrow> string \<Rightarrow> usage" where
  "check_port_usage run t host port =
     (case run t [''sudo'', ''lsof'', ''-t'', ''-i'', ''@'' @ host @ '':'' @ port] of
        Inr out \<Rightarrow> UList (map EStr (split_on CHR 0x0A (strip out)))
      | Inl e \<Rightarrow> UStr (''Error checking port '' @ port @ '' on '' @ host @ '': '' @ e))"

definition check_unix_socket_usage :: "os \<Rightarrow> nat \<Rightarrow> string \<Rightarrow> usage" where
  "check_unix_socket_usage run t socket_path =
     (case run t [''sudo'', ''lsof'', ''-t'', socket_path] of
        Inr out \<Rightarrow> UList (map EStr (split_on CHR 0x0A (strip out)))
      | Inl e \<Rightarrow> UList [])"

text \<open>
  \<open>parse_systemctl_service_status\<close>: the name is \<open>lines[0].split(" ")[1]\<close>, which
  raises IndexError when the first line has no space; the status is read from the third
  line when it has a colon.
\<close>

definition parse_systemctl_service_status :: "string \<Rightarrow> error + (string \<times> string)" where
  "parse_systemctl_service_status status =
     (let lines = split_on CHR 0x0A status in
      case index lines 0 of
        Inl e \<Rightarrow> Inl e
      | Inr line0 \<Rightarrow>
         (case index (split_on CHR '' '' line0) 1 of
            Inl e \<Rightarrow> Inl e
          | Inr service_name \<Rightarrow>
             (if length lines > 2 \<and> CHR '':'' \<in> set (lines ! 2) then
                (case index (split_on CHR '':'' (lines ! 2)) 1 of
                   Inl e \<Rightarrow> Inl e
                 | Inr st \<Rightarrow> Inr (service_name, strip st))
              else Inr (service_name, ''unknown''))))"

text \<open>
  \<open>get_systemctl_service\<close> catches every exception and returns its text after
  \<open>Error finding service: \<close>. The parser raises nothing but the IndexError of a list
  index, whose text is \<open>list index out of range\<close>.
\<close>

definition get_systemctl_service :: "os \<Rightarrow> nat \<Rightarrow> string \<Rightarrow> string" where
  "get_systemctl_service run t pid =
     (case run t [''sudo'', ''systemctl'', ''status'', pid] of
        Inl e \<Rightarrow> ''Error finding service: '' @ e
      | Inr out \<Rightarrow>
         (case parse_systemctl_service_status (strip out) of
            Inl e \<Rightarrow> ''Error finding service: list index out of range''
          | Inr (service_name, service_status) \<Rightarrow> service_name))"

section \<open>resolve_targets\<close>

text \<open>
  An element of the \<open>targets\<close> set: a tuple \<open>(primary, failover)\<close> as
  \<open>proxypass_target\<close> gives it (each side a string or \<open>None\<close>), or a plain string, as
  \<open>read_nginx_config\<close> and the discovery step of \<open>resolve_targets\<close> add it.
\<close>

datatype target = Tuple "string option" "string option" | Str string

text \<open>The value stored in \<open>details\<close>; the list made from the set of services is kept
  as the set.\<close>

record resolution =
  usage_info :: usage
  systemctl_service :: "string set"

text \<open>
  \<open>resolve_targets\<close> calls \<open>check_port_usage\<close>, \<open>check_unix_socket_usage\<close> and
  \<open>get_systemctl_service\<close> by their module names. The engine is modelled over any three
  such functions, so that a probe may also answer with the dict entries the discovery
  step reads; \<open>source_env\<close> is the three functions of the source. Each call is one external
  call, recorded in \<open>calls\<close>; its first argument is the number of calls made before.
\<close>

record env =
  port_usage :: "nat \<Rightarrow> string \<Rightarrow> string \<Rightarrow> usage"
  socket_usage :: "nat \<Rightarrow> string \<Rightarrow> usage"
  systemctl :: "nat \<Rightarrow> string \<Rightarrow> string"

definition source_env :: "os \<Rightarrow> env" where
  "source_env run =
     \<lparr>port_usage = check_port_usage run,
      socket_usage = check_unix_socket_usage run,
      systemctl = get_systemctl_service run\<rparr>"

datatype call = Port_probe string string | Socket_probe string | Service_lookup string

text \<open>
  The local variables of \<open>resolve_targets\<close>. \<open>targets\<close> is a Python set, kept as a list
  without duplicates. \<open>visited\<close> may hold \<open>None\<close>. \<open>calls\<close> is the trace of the external
  calls and \<open>popped\<close> the history of \<open>targets.pop()\<close>: no branch of the code reads them.
\<close>

record state =
  targets :: "target list"
  visited :: "string option set"
  details :: "string \<rightharpoonup> resolution"
  processed_pids :: "string set"
  calls :: "call list"
  popped :: "target list"

text \<open>\<open>primary, failover = target\<close>: a tuple unpacks to its two sides, a string of two
  characters to its two characters, any other string raises ValueError.\<close>

fun unpack :: "target \<Rightarrow> error + (string option \<times> string option)" where
  "unpack (Tuple primary failover) = Inr (primary, failover)"
| "unpack (Str [a, b]) = Inr (Some [a], Some [b])"
| "unpack (Str _) = Inl ValueError"

definition truthy :: "string option \<Rightarrow> bool" where
  "truthy v = (v \<noteq> None \<and> v \<noteq> Some [])"

text \<open>
  Lines 299 to 307: the probe of a target string. It gives the key under which the result
  is stored (the target, without a leading \<open>http://\<close> when it is no socket), the probe
  result and the state after the call. More than one colon in a host and port raises
  ValueError at \<open>host, port = target.split(":")\<close>.
\<close>

definition probe :: "env \<Rightarrow> state \<Rightarrow> string \<Rightarrow> error + (string \<times> usage \<times> state)" where
  "probe env s target =
     (if prefix ''unix:'' target then
        (let socket_path = drop 5 target in
         Inr (target, socket_usage env (length (calls s)) socket_path,
              s\<lparr>calls := calls s @ [Socket_probe socket_path]\<rparr>))
      else
        (let target' = (if prefix ''http://'' target then drop 7 target else target) in
         if CHR '':'' \<in> set target' then
           (case split_on CHR '':'' target' of
              [host, port] \<Rightarrow>
                Inr (target', port_usage env (length (calls s)) host port,
                     s\<lparr>calls := calls s @ [Port_probe host port]\<rparr>)
            | _ \<Rightarrow> Inl ValueError)
         else
           Inr (target', port_usage env (length (calls s)) target' ''80'',
                s\<lparr>calls := calls s @ [Port_probe target' ''80'']\<rparr>)))"

text \<open>Lines 311 to 317: the loop over the entries, with \<open>systemctl_services\<close> and the state.\<close>

fun service_loop :: "env \<Rightarrow> entry list \<Rightarrow> string set \<times> state \<Rightarrow> string set \<times> state" where
  "service_loop env [] acc = acc"
| "service_loop env (EStr pid # es) (svcs, s) =
     (if pid \<noteq> [] \<and> pid \<notin> processed_pids s then
        service_loop env es
          (insert (systemctl env (length (calls s)) pid) svcs,
           s\<lparr>processed_pids := insert pid (processed_pids s),
             calls := calls s @ [Service_lookup pid]\<rparr>)
      else service_loop env es (svcs, s))"
| "service_loop env (EDict d # es) acc = service_loop env es acc"

text \<open>
  Lines 328 and 334: the two list comprehensions. \<open>'name' in entry\<close> is a substring test
  on a string entry, and \<open>entry['name']\<close> then raises TypeError; on a dict it is a key test.
\<close>

fun new_ports :: "entry list \<Rightarrow> error + string list" where
  "new_ports [] = Inr []"
| "new_ports (EStr e # es) = (if contains ''name'' e then Inl TypeError else new_ports es)"
| "new_ports (EDict d # es) =
     (case map_of d ''name'' of
        None \<Rightarrow> new_ports es
      | Some name \<Rightarrow>
         (if prefix ''127.0.0.1:'' name then
            (case index (split_on CHR '':'' name) 1 of
               Inl e \<Rightarrow> Inl e
             | Inr port \<Rightarrow>
                (case new_ports es of Inl e \<Rightarrow> Inl e | Inr ports \<Rightarrow> Inr (port # ports)))
          else new_ports es))"

fun new_sockets :: "entry list \<Rightarrow> error + string list" where
  "new_sockets [] = Inr []"
| "new_sockets (EStr e # es) = (if contains ''name'' e then Inl TypeError else new_sockets es)"
| "new_sockets (EDict d # es) =
     (case map_of d ''name'' of
        None \<Rightarrow> new_sockets es
      | Some name \<Rightarrow>
         (if prefix ''unix:'' name then
            (case new_sockets es of Inl e \<Rightarrow> Inl e | Inr socks \<Rightarrow> Inr (drop 5 name # socks))
          else new_sockets es))"

text \<open>\<open>targets.add(x)\<close> on the list that stands for the set.\<close>

definition set_add :: "'a \<Rightarrow> 'a list \<Rightarrow> 'a list" where
  "set_add x xs = (if x \<in> set xs then xs else xs @ [x])"

text \<open>Lines 329 to 332 and 335 to 338: each new target that is not in \<open>visited\<close> is added
  to \<open>targets\<close>, as the string it is.\<close>

fun add_targets :: "string list \<Rightarrow> state \<Rightarrow> state" where
  "add_targets [] s = s"
| "add_targets (new_target # rest) s =
     add_targets rest
       (if Some new_target \<in> visited s then s
        else s\<lparr>targets := set_add (Str new_target) (targets s)\<rparr>)"

definition discover :: "entry list \<Rightarrow> state \<Rightarrow> (error \<times> state) + state" where
  "discover es s =
     (case new_ports es of
        Inl e \<Rightarrow> Inl (e, s)
      | Inr ports \<Rightarrow>
         (let s1 = add_targets (map (\<lambda>new_port. ''127.0.0.1:'' @ new_port) ports) s in
          case new_sockets es of
            Inl e \<Rightarrow> Inl (e, s1)
          | Inr socks \<Rightarrow> Inr (add_targets (map (\<lambda>new_socket. ''unix:'' @ new_socket) socks) s1)))"

text \<open>
  One turn of the \<open>while\<close> loop on the entry \<open>t\<close> that was popped (lines 288 to 338). An
  exception ends the run: \<open>Inl\<close> holds it with the state at that point.
\<close>

definition resolve_one :: "env \<Rightarrow> state \<Rightarrow> target \<Rightarrow> (error \<times> state) + state" where
  "resolve_one env s t =
     (case unpack t of
        Inl e \<Rightarrow> Inl (e, s)
      | Inr (primary, failover) \<Rightarrow>
         (let s1 = (if truthy primary \<and> truthy failover
                    then s\<lparr>visited := insert primary (visited s)\<rparr> else s);
              s2 = s1\<lparr>visited := insert primary (visited s1)\<rparr>
          in case primary of
               None \<Rightarrow> Inl (AttributeError, s2)
             | Some target \<Rightarrow>
                (case probe env s2 target of
                   Inl e \<Rightarrow> Inl (e, s2)
                 | Inr (key, usage, s3) \<Rightarrow>
                    (case usage of
                       UStr msg \<Rightarrow>
                         Inr (s3\<lparr>details := (details s3)(key \<mapsto>
                                \<lparr>usage_info = usage, systemctl_service = {}\<rparr>)\<rparr>)
                     | UList es \<Rightarrow>
                         (let (svcs, s4) = service_loop env es ({}, s3);
                              s5 = s4\<lparr>details := (details s4)(key \<mapsto>
                                     \<lparr>usage_info = usage, systemctl_service = svcs\<rparr>)\<rparr>
                          in discover es s5)))))"

text \<open>
  \<open>targets.pop()\<close> takes an arbitrary element: the element at index \<open>k mod length\<close>, for a
  number \<open>k\<close> that the schedule of the run supplies.
\<close>

definition pop :: "nat \<Rightarrow> state \<Rightarrow> target \<times> state" where
  "pop k s =
     (let i = k mod length (targets s) in
      (targets s ! i,
       s\<lparr>targets := take i (targets s) @ drop (Suc i) (targets s),
         popped := popped s @ [targets s ! i]\<rparr>))"

text \<open>An entry whose unpacking does not raise.\<close>

fun unpackable :: "target \<Rightarrow> bool" where
  "unpackable (Tuple primary failover) = True"
| "unpackable (Str x) = (length x = 2)"

text \<open>
  The loop ends: a turn that does not raise pops an entry that unpacks, and adds nothing
  that unpacks (every discovered string has more than two characters). The lemmas below
  are the termination argument of \<open>resolve_loop\<close>.
\<close>

lemma probe_frame:
  assumes "probe env s target = Inr (key, usage, s')"
  shows "targets s' = targets s" "visited s' = visited s" "details s' = details s"
    "processed_pids s' = processed_pids s" "popped s' = popped s"
  using assms
  by (auto simp: probe_def Let_def split: if_splits list.splits)

lemma service_loop_frame:
  assumes "service_loop env es (svcs, s) = (svcs', s')"
  shows "targets s' = targets s \<and> visited s' = visited s \<and> details s' = details s
    \<and> popped s' = popped s"
  using assms
  by (induction env es "(svcs, s)" arbitrary: svcs s rule: service_loop.induct)
    (auto split: if_splits)

lemma filter_set_add_Str:
  "length a \<noteq> 2 \<Longrightarrow> filter unpackable (set_add (Str a) ts) = filter unpackable ts"
  by (simp add: set_add_def)

lemma add_targets_unpackable:
  "\<forall>a \<in> set new. length a \<noteq> 2 \<Longrightarrow>
   filter unpackable (targets (add_targets new s)) = filter unpackable (targets s)"
  by (induction new s rule: add_targets.induct) (auto simp: filter_set_add_Str)

lemma discover_unpackable:
  "discover es s = Inr s' \<Longrightarrow> filter unpackable (targets s') = filter unpackable (targets s)"
  by (auto simp: discover_def Let_def add_targets_unpackable split: sum.splits)

lemma resolve_one_unpackable:
  assumes "resolve_one env s t = Inr s'"
  shows "unpackable t" "filter unpackable (targets s') = filter unpackable (targets s)"
proof -
  show "unpackable t"
    using assms by (cases t rule: unpack.cases) (auto simp: resolve_one_def)
  show "filter unpackable (targets s') = filter unpackable (targets s)"
    using assms
    by (auto simp: resolve_one_def Let_def
        split: sum.splits option.splits usage.splits prod.splits if_splits
        dest!: probe_frame(1) service_loop_frame discover_unpackable)
qed

lemma pop_unpackable:
  assumes "targets s \<noteq> []" "unpackable (fst (pop k s))"
  shows "Suc (length (filter unpackable (targets (snd (pop k s)))))
    = length (filter unpackable (targets s))"
proof -
  let ?xs = "targets s"
  let ?i = "k mod length ?xs"
  have i: "?i < length ?xs" using assms(1) by simp
  have u: "unpackable (?xs ! ?i)" using assms(2) by (simp add: pop_def Let_def)
  have "?xs = take ?i ?xs @ ?xs ! ?i # drop (Suc ?i) ?xs"
    using i by (rule id_take_nth_drop)
  then have "filter unpackable ?xs =
      filter unpackable (take ?i ?xs) @ ?xs ! ?i # filter unpackable (drop (Suc ?i) ?xs)"
    using u by (metis filter.simps(2) filter_append)
  then show ?thesis by (simp add: pop_def Let_def)
qed

text \<open>
  The \<open>while targets:\<close> loop. \<open>sched n\<close> chooses the element that the \<open>n\<close>-th
  \<open>targets.pop()\<close> takes, so that every order of popping is a schedule.
\<close>

function resolve_loop ::
  "env \<Rightarrow> (nat \<Rightarrow> nat) \<Rightarrow> nat \<Rightarrow> state \<Rightarrow> (error \<times> state) + state" where
  "resolve_loop env sched n s =
     (if targets s = [] then Inr s
      else (case resolve_one env (snd (pop (sched n) s)) (fst (pop (sched n) s)) of
              Inl e \<Rightarrow> Inl e
            | Inr s' \<Rightarrow> resolve_loop env sched (Suc n) s'))"
  by pat_completeness auto
termination
proof (relation "measure (\<lambda>(env, sched, n, s). length (filter unpackable (targets s)))")
  show "wf (measure (\<lambda>(env, sched, n, s). length (filter unpackable (targets s))))" by simp
next
  fix env :: env and sched :: "nat \<Rightarrow> nat" and n s s'
  assume ne: "targets s \<noteq> []"
    and r: "resolve_one env (snd (pop (sched n) s)) (fst (pop (sched n) s)) = Inr s'"
  from resolve_one_unpackable[OF r] pop_unpackable[OF ne, of "sched n"]
  have "length (filter unpackable (targets s')) < length (filter unpackable (targets s))"
    by simp
  then show "((env, sched, Suc n, s'), (env, sched, n, s))
        \<in> measure (\<lambda>(env, sched, n, s). length (filter unpackable (targets s)))"
    by simp
qed

declare resolve_loop.simps [simp del]

text \<open>The state in which \<open>resolve_targets\<close> enters its loop on the set \<open>ts\<close>.\<close>

definition initial :: "target list \<Rightarrow> state" where
  "initial ts =
     \<lparr>targets = remdups ts, visited = {}, details = Map.empty, processed_pids = {},
      calls = [], popped = []\<rparr>"

text \<open>\<open>resolve_targets\<close> returns \<open>details\<close>, or ends with the exception.\<close>

definition resolve_targets ::
  "env \<Rightarrow> (nat \<Rightarrow> nat) \<Rightarrow> target list \<Rightarrow> error + (string \<rightharpoonup> resolution)" where
  "resolve_targets env sched ts =
     (case resolve_loop env sched 0 (initial ts) of
        Inl (e, s) \<Rightarrow> Inl e
      | Inr s \<Rightarrow> Inr (details s))"

text \<open>The state in which a turn or a run ends, by return or by exception.\<close>

fun final :: "(error \<times> state) + state \<Rightarrow> state" where
  "final (Inl (e, s)) = s"
| "final (Inr s) = s"

text \<open>The primaries of the entries of a list that unpack, in order.\<close>

fun primaries :: "target list \<Rightarrow> string option list" where
  "primaries [] = []"
| "primaries (t # ts) =
     (case unpack t of Inl e \<Rightarrow> primaries ts | Inr (primary, failover) \<Rightarrow> primary # primaries ts)"

section \<open>Notions used in the statements\<close>

text \<open>The three tests of \<open>proxypass_target\<close> on one part of the line.\<close>

definition target_part :: "string \<Rightarrow> bool" where
  "target_part part =
     (CHR ''|'' \<in> set part \<or> prefix (dquote # ''http'') part \<or> prefix (dquote # ''unix:'') part)"





text \<open>The key of \<open>details\<close> under which the result for a target string is stored.\<close>

definition target_key :: "string \<Rightarrow> string" where
  "target_key target =
     (if prefix ''unix:'' target then target
      else if prefix ''http://'' target then drop 7 target else target)"

text \<open>The pids of the \<open>get_systemctl_service\<close> calls of a trace, and its probe calls.\<close>

fun lookups :: "call list \<Rightarrow> string list" where
  "lookups [] = []"
| "lookups (Service_lookup pid # cs) = pid # lookups cs"
| "lookups (c # cs) = lookups cs"

fun is_probe :: "call \<Rightarrow> bool" where
  "is_probe (Port_probe host port) = True"
| "is_probe (Socket_probe socket_path) = True"
| "is_probe (Service_lookup pid) = False"

text \<open>The services that the lookups of a piece of the trace returned, the piece starting
  as call number \<open>n\<close>.\<close>

fun services_of :: "env \<Rightarrow> nat \<Rightarrow> call list \<Rightarrow> string set" where
  "services_of env n [] = {}"
| "services_of env n (Service_lookup pid # cs) =
     insert (systemctl env n pid) (services_of env (Suc n) cs)"
| "services_of env n (c # cs) = services_of env (Suc n) cs"

text \<open>The probe that \<open>resolve_targets\<close> runs for a target string, if the string splits
  into a host and a port or names a socket; and the probes of an entry of \<open>targets\<close>.\<close>

definition probe_address :: "string \<Rightarrow> call option" where
  "probe_address target =
     (if prefix ''unix:'' target then Some (Socket_probe (drop 5 target))
      else if CHR '':'' \<in> set (target_key target) then
        (case split_on CHR '':'' (target_key target) of
           [host, port] \<Rightarrow> Some (Port_probe host port)
         | _ \<Rightarrow> None)
      else Some (Port_probe (target_key target) ''80''))"

definition probes_of :: "target \<Rightarrow> call list" where
  "probes_of t =
     (case unpack t of
        Inr (Some target, failover) \<Rightarrow>
          (case probe_address target of None \<Rightarrow> [] | Some c \<Rightarrow> [c])
      | _ \<Rightarrow> [])"

text \<open>The strings that the discovery step builds: \<open>f"127.0.0.1:{new_port}"\<close> and
  \<open>f"unix:{new_socket}"\<close>.\<close>

definition discovered_form :: "string \<Rightarrow> bool" where
  "discovered_form a = (prefix ''127.0.0.1:'' a \<or> prefix ''unix:'' a)"

text \<open>\<open>visited.add(primary)\<close> and \<open>details[key] = {...}\<close> on the state.\<close>

definition visit :: "string option \<Rightarrow> state \<Rightarrow> state" where
  "visit primary s = s\<lparr>visited := insert primary (visited s)\<rparr>"

definition store :: "string \<Rightarrow> usage \<Rightarrow> string set \<Rightarrow> state \<Rightarrow> state" where
  "store key usage svcs s =
     s\<lparr>details := (details s)(key \<mapsto> \<lparr>usage_info = usage, systemctl_service = svcs\<rparr>)\<rparr>"

text \<open>
  What a run from the set \<open>A\<close> may touch: the frontier holds entries of \<open>A\<close> and discovered
  strings, and the visited set, the keys of \<open>details\<close> and the probes come from the
  primaries of \<open>A\<close>.
\<close>

definition reach :: "target set \<Rightarrow> state \<Rightarrow> bool" where
  "reach A s =
     (set (targets s) \<union> set (popped s) \<subseteq> A \<union> Str ` Collect discovered_form
      \<and> visited s \<subseteq> {p. \<exists>t \<in> A. p \<in> set (primaries [t])}
      \<and> dom (details s) \<subseteq> target_key ` {p. \<exists>t \<in> A. Some p \<in> set (primaries [t])}
      \<and> set (filter is_probe (calls s)) \<subseteq> {c. \<exists>t \<in> A. c \<in> set (probes_of t)})"

text \<open>
  A probe result from which the discovery step reads nothing and raises nothing, an
  environment all of whose probes answer so, and an entry for which the code reaches a
  probe.
\<close>

definition quiet :: "usage \<Rightarrow> bool" where
  "quiet usage =
     (case usage of
        UStr msg \<Rightarrow> True
      | UList es \<Rightarrow> new_ports es = Inr [] \<and> new_sockets es = Inr [])"

definition quiet_env :: "env \<Rightarrow> bool" where
  "quiet_env env =
     ((\<forall>n host port. quiet (port_usage env n host port))
      \<and> (\<forall>n socket_path. quiet (socket_usage env n socket_path)))"

definition probeable :: "target \<Rightarrow> bool" where
  "probeable t = (probes_of t \<noteq> [])"

section \<open>Example environments\<close>

text \<open>
  \<open>example_os\<close>: \<open>lsof\<close> fails for port 9000 and lists the pids 101 and 102 elsewhere;
  \<open>systemctl status\<close> knows pid 101 only. \<open>failing_os\<close> raises on every command,
  \<open>silent_os\<close> prints nothing, \<open>changing_os\<close> lists pid 101 in the first command and
  pid 202 later. \<open>naming_os\<close> prints the one line \<open>hostname\<close>, \<open>trailing_space_os\<close> and
  \<open>double_space_os\<close> print a first line with a space at its end, respectively with two
  spaces between its fields. \<open>chain_env\<close> and \<open>cycle_env\<close> are probes that answer with dict entries:
  8080 names 8081 and 8081 names 8082, respectively 8080.
\<close>

definition example_os :: os where
  "example_os t argv =
     (if argv = [''sudo'', ''lsof'', ''-t'', ''-i'', ''@127.0.0.1:9000'']
      then Inl ''[Errno 2] No such file or directory''
      else if take 2 argv = [''sudo'', ''lsof''] then Inr ''101\<newline>102\<newline>''
      else if argv = [''sudo'', ''systemctl'', ''status'', ''101'']
      then Inr ''* app.service - Demo\<newline>   Loaded: loaded\<newline>   Active: active (running)''
      else Inr '''')"

definition failing_os :: os where
  "failing_os t argv = Inl ''lsof failed''"

definition silent_os :: os where
  "silent_os t argv = Inr ''''"

definition changing_os :: os where
  "changing_os t argv =
     (if take 2 argv = [''sudo'', ''lsof''] then (if t = 0 then Inr ''101'' else Inr ''202'')
      else Inr '''')"

definition naming_os :: os where
  "naming_os t argv = Inr ''hostname''"



definition chain_env :: env where
  "chain_env =
     \<lparr>port_usage = (\<lambda>t host port.
        if port = ''8080'' then UList [EDict [(''name'', ''127.0.0.1:8081'')]]
        else if port = ''8081'' then UList [EDict [(''name'', ''127.0.0.1:8082'')]]
        else UList [EStr '''']),
      socket_usage = (\<lambda>t socket_path. UList [EStr '''']),
      systemctl = (\<lambda>t pid. ''app.service'')\<rparr>"

definition cycle_env :: env where
  "cycle_env =
     \<lparr>port_usage = (\<lambda>t host port.
        if port = ''8080'' then UList [EStr ''101'', EDict [(''name'', ''127.0.0.1:8081'')]]
        else if port = ''8081'' then UList [EStr ''102'', EDict [(''name'', ''127.0.0.1:8080'')]]
        else UList [EStr '''']),
      socket_usage = (\<lambda>t socket_path. UList [EStr ''101'']),
      systemctl = (\<lambda>t pid. ''app.service'')\<rparr>"

definition sibling_targets :: "target list" where
  "sibling_targets =
     [Tuple (Some ''http://127.0.0.1:9000'') (Some ''http://127.0.0.1:9001''),
      Tuple (Some ''unix:/run/app.sock'') None,
      Tuple (Some ''http://127.0.0.1:3000'') None]"

text \<open>The state before and after the second of two entries with the primary
  \<open>unix:/run/app.sock\<close> is resolved under \<open>changing_os\<close>.\<close>

definition overwrite_before :: state where
  "overwrite_before =
     \<lparr>targets = [], visited = {Some ''unix:/run/app.sock''},
      details = [''unix:/run/app.sock'' \<mapsto>
                   \<lparr>usage_info = UList [EStr ''101''],
                    systemctl_service = {''Error finding service: list index out of range''}\<rparr>],
      processed_pids = {''101''},
      calls = [Socket_probe ''/run/app.sock'', Service_lookup ''101''],
      popped = [Tuple (Some ''unix:/run/app.sock'') None,
                Tuple (Some ''unix:/run/app.sock'') (Some ''http://127.0.0.1:9001'')]\<rparr>"

definition overwrite_after :: state where
  "overwrite_after =
     \<lparr>targets = [], visited = {Some ''unix:/run/app.sock''},
      details = [''unix:/run/app.sock'' \<mapsto>
                   \<lparr>usage_info = UList [EStr ''202''],
                    systemctl_service = {''Error finding service: list index out of range''}\<rparr>],
      processed_pids = {''202'', ''101''},
      calls = [Socket_probe ''/run/app.sock'', Service_lookup ''101'',
               Socket_probe ''/run/app.sock'', Service_lookup ''202''],
      popped = [Tuple (Some ''unix:/run/app.sock'') None,
                Tuple (Some ''unix:/run/app.sock'') (Some ''http://127.0.0.1:9001'')]\<rparr>"

section \<open>Splitting strings\<close>

lemma split_on_not_Nil: "split_on sep s \<noteq> []"
  by (induction s) (auto split: list.splits)

lemma split_on_sep_two: "sep \<in> set s \<Longrightarrow> \<exists>f0 f1 fs. split_on sep s = f0 # f1 # fs"
proof (induction s)
  case Nil
  then show ?case by simp
next
  case (Cons c cs)
  show ?case
  proof (cases "c = sep")
    case True
    then show ?thesis using split_on_not_Nil[of sep cs] by (cases "split_on sep cs") auto
  next
    case False
    with Cons obtain f0 f1 fs where "split_on sep cs = f0 # f1 # fs" by auto
    with False show ?thesis by simp
  qed
qed

lemma proxypass_parts_find:
  "proxypass_parts parts =
     Inr (case find target_part parts of
            None \<Rightarrow> (None, None)
          | Some part \<Rightarrow>
              (if CHR ''|'' \<in> set part
               then (Some (strip_char dquote (split_on CHR ''|'' part ! 0)),
                     Some (strip_char dquote (split_on CHR ''|'' part ! 1)))
               else (Some (strip_char dquote part), None)))"
proof (induction parts)
  case Nil
  then show ?case by simp
next
  case (Cons part parts)
  show ?case
  proof (cases "CHR ''|'' \<in> set part")
    case True
    from split_on_sep_two[OF True] obtain f0 f1 fs
      where "split_on CHR ''|'' part = f0 # f1 # fs" by blast
    with True show ?thesis by (simp add: target_part_def index_def)
  next
    case False
    with Cons show ?thesis by (simp add: target_part_def)
  qed
qed


section \<open>The stages of one turn\<close>

lemma add_targets_frame:
  "visited (add_targets new s) = visited s" "details (add_targets new s) = details s"
  "processed_pids (add_targets new s) = processed_pids s" "calls (add_targets new s) = calls s"
  "popped (add_targets new s) = popped s"
  by (induction new s rule: add_targets.induct) auto

lemma add_targets_targets:
  "set (targets (add_targets new s)) = set (targets s) \<union> Str ` {a \<in> set new. Some a \<notin> visited s}"
  by (induction new s rule: add_targets.induct) (auto simp: set_add_def)

lemma discover_frame:
  "visited (final (discover es s)) = visited s" "details (final (discover es s)) = details s"
  "processed_pids (final (discover es s)) = processed_pids s"
  "calls (final (discover es s)) = calls s" "popped (final (discover es s)) = popped s"
  by (auto simp: discover_def Let_def add_targets_frame split: sum.splits)

lemma discover_targets:
  "set (targets s) \<subseteq> set (targets (final (discover es s)))"
  "set (targets (final (discover es s))) \<subseteq> set (targets s) \<union> Str ` Collect discovered_form"
  by (auto simp: discover_def Let_def add_targets_targets discovered_form_def split: sum.splits)

lemma discover_isl: "isl (discover es s) = (isl (new_ports es) \<or> isl (new_sockets es))"
  by (simp add: discover_def Let_def split: sum.splits)

lemma lookups_append: "lookups (cs @ ds) = lookups cs @ lookups ds"
  by (induction cs rule: lookups.induct) auto

lemma service_loop_lookups:
  assumes "service_loop env es (svcs, s) = (svcs', s')"
    and "distinct (lookups (calls s))" "set (lookups (calls s)) = processed_pids s"
  shows "distinct (lookups (calls s')) \<and> set (lookups (calls s')) = processed_pids s'"
  using assms
  by (induction env es "(svcs, s)" arbitrary: svcs s rule: service_loop.induct)
    (auto simp: lookups_append split: if_splits)

lemma service_loop_pids:
  assumes "service_loop env es (svcs, s) = (svcs', s')"
  shows "processed_pids s' = processed_pids s \<union> {pid. EStr pid \<in> set es \<and> pid \<noteq> []}"
  using assms
  by (induction env es "(svcs, s)" arbitrary: svcs s rule: service_loop.induct)
    (auto split: if_splits)

lemma service_loop_probes:
  assumes "service_loop env es (svcs, s) = (svcs', s')"
  shows "filter is_probe (calls s') = filter is_probe (calls s)"
  using assms
  by (induction env es "(svcs, s)" arbitrary: svcs s rule: service_loop.induct)
    (auto split: if_splits)

lemma service_loop_trace:
  assumes "service_loop env es (svcs, s) = (svcs', s')"
  shows "\<exists>new. calls s' = calls s @ new \<and> filter is_probe new = []
      \<and> svcs' = svcs \<union> services_of env (length (calls s)) new
      \<and> set (lookups new) = {pid. EStr pid \<in> set es \<and> pid \<noteq> [] \<and> pid \<notin> processed_pids s}"
  using assms
proof (induction env es "(svcs, s)" arbitrary: svcs s rule: service_loop.induct)
  case (1 env)
  then show ?case by simp
next
  case (2 env pid es svcs s)
  show ?case
  proof (cases "pid \<noteq> [] \<and> pid \<notin> processed_pids s")
    case True
    let ?s2 = "s\<lparr>processed_pids := insert pid (processed_pids s),
             calls := calls s @ [Service_lookup pid]\<rparr>"
    let ?v2 = "insert (systemctl env (length (calls s)) pid) svcs"
    have "service_loop env es (?v2, ?s2) = (svcs', s')" using 2(3) True by simp
    from 2(1)[OF True this] obtain new where new:
      "calls s' = calls ?s2 @ new" "filter is_probe new = []"
      "svcs' = ?v2 \<union> services_of env (length (calls ?s2)) new"
      "set (lookups new) = {p. EStr p \<in> set es \<and> p \<noteq> [] \<and> p \<notin> processed_pids ?s2}"
      by blast
    let ?new = "Service_lookup pid # new"
    have "calls s' = calls s @ ?new" using new(1) by simp
    moreover have "filter is_probe ?new = []" using new(2) by simp
    moreover have "svcs' = svcs \<union> services_of env (length (calls s)) ?new"
      using new(3) by simp
    moreover have "set (lookups ?new)
        = {p. EStr p \<in> set (EStr pid # es) \<and> p \<noteq> [] \<and> p \<notin> processed_pids s}"
      using new(4) True by auto
    ultimately show ?thesis by blast
  next
    case False
    then have "service_loop env es (svcs, s) = (svcs', s')" using 2(3) by auto
    from 2(2)[OF False this] obtain new where new:
      "calls s' = calls s @ new" "filter is_probe new = []"
      "svcs' = svcs \<union> services_of env (length (calls s)) new"
      "set (lookups new) = {p. EStr p \<in> set es \<and> p \<noteq> [] \<and> p \<notin> processed_pids s}"
      by blast
    have "set (lookups new)
        = {p. EStr p \<in> set (EStr pid # es) \<and> p \<noteq> [] \<and> p \<notin> processed_pids s}"
      using new(4) False by auto
    then show ?thesis using new(1,2,3) by blast
  qed
next
  case (3 env d es acc)
  then show ?case by simp
qed

lemma probe_calls:
  assumes "probe env s target = Inr (key, usage, s')"
  shows "lookups (calls s') = lookups (calls s)" "key = target_key target"
  using assms
  by (auto simp: probe_def Let_def lookups_append target_key_def split: if_splits list.splits)

lemma probe_address_eq:
  "probe env s target = Inr (key, usage, s') \<Longrightarrow>
     \<exists>c. probe_address target = Some c \<and> is_probe c \<and> calls s' = calls s @ [c]"
  "probe env s target = Inl e \<Longrightarrow> probe_address target = None \<and> e = ValueError"
  by (auto simp: probe_def probe_address_def target_key_def Let_def split: if_splits list.splits)

lemma probe_details:
  "probe env (s\<lparr>details := d\<rparr>) target =
     (case probe env s target of
        Inl e \<Rightarrow> Inl e
      | Inr (key, usage, s') \<Rightarrow> Inr (key, usage, s'\<lparr>details := d\<rparr>))"
  by (simp add: probe_def Let_def split: list.splits)

lemma probe_visit:
  "probe env (visit p s) target =
     (case probe env s target of
        Inl e \<Rightarrow> Inl e
      | Inr (key, usage, s') \<Rightarrow> Inr (key, usage, visit p s'))"
  by (simp add: probe_def visit_def Let_def split: list.splits)

lemma visit_simps [simp]:
  "targets (visit p s) = targets s" "visited (visit p s) = insert p (visited s)"
  "details (visit p s) = details s" "processed_pids (visit p s) = processed_pids s"
  "calls (visit p s) = calls s" "popped (visit p s) = popped s"
  by (simp_all add: visit_def)

lemma store_simps [simp]:
  "targets (store k u v s) = targets s" "visited (store k u v s) = visited s"
  "details (store k u v s) = (details s)(k \<mapsto> \<lparr>usage_info = u, systemctl_service = v\<rparr>)"
  "processed_pids (store k u v s) = processed_pids s"
  "calls (store k u v s) = calls s" "popped (store k u v s) = popped s"
  by (simp_all add: store_def)

lemma visit_twice:
  "(if truthy primary \<and> truthy failover then s\<lparr>visited := insert primary (visited s)\<rparr> else s)
     \<lparr>visited := insert primary
        (visited (if truthy primary \<and> truthy failover
                  then s\<lparr>visited := insert primary (visited s)\<rparr> else s))\<rparr>
   = visit primary s"
  by (simp add: visit_def)

lemma resolve_one_eq:
  "resolve_one env s t =
     (case unpack t of
        Inl e \<Rightarrow> Inl (e, s)
      | Inr (primary, failover) \<Rightarrow>
         (case primary of
            None \<Rightarrow> Inl (AttributeError, visit primary s)
          | Some target \<Rightarrow>
             (case probe env (visit primary s) target of
                Inl e \<Rightarrow> Inl (e, visit primary s)
              | Inr (key, usage, s3) \<Rightarrow>
                 (case usage of
                    UStr msg \<Rightarrow> Inr (store key usage {} s3)
                  | UList es \<Rightarrow>
                     discover es (store key usage (fst (service_loop env es ({}, s3)))
                                    (snd (service_loop env es ({}, s3))))))))"
  unfolding resolve_one_def Let_def visit_twice
  by (simp add: store_def split: sum.splits prod.splits option.splits usage.splits)

lemma unpack_error: "unpack t = Inl e \<Longrightarrow> e = ValueError"
  by (cases t rule: unpack.cases) auto

text \<open>The five ways in which a turn ends.\<close>

lemma resolve_one_cases [case_names unpack_error no_primary probe_error probe_str probe_list]:
  obtains "unpack t = Inl ValueError" "resolve_one env s t = Inl (ValueError, s)"
  | failover where "unpack t = Inr (None, failover)"
      "resolve_one env s t = Inl (AttributeError, visit None s)"
  | target failover e where "unpack t = Inr (Some target, failover)"
      "probe env (visit (Some target) s) target = Inl e"
      "resolve_one env s t = Inl (e, visit (Some target) s)"
  | target failover msg s3 where "unpack t = Inr (Some target, failover)"
      "probe env (visit (Some target) s) target = Inr (target_key target, UStr msg, s3)"
      "resolve_one env s t = Inr (store (target_key target) (UStr msg) {} s3)"
  | target failover es s3 svcs s4 where "unpack t = Inr (Some target, failover)"
      "probe env (visit (Some target) s) target = Inr (target_key target, UList es, s3)"
      "service_loop env es ({}, s3) = (svcs, s4)"
      "resolve_one env s t = discover es (store (target_key target) (UList es) svcs s4)"
proof (cases "unpack t")
  case (Inl e)
  then show ?thesis using that(1) unpack_error[OF Inl] by (simp add: resolve_one_eq)
next
  case (Inr pf)
  obtain primary failover where pf: "pf = (primary, failover)" by (cases pf)
  show ?thesis
  proof (cases primary)
    case None
    then show ?thesis using that(2) Inr pf by (simp add: resolve_one_eq)
  next
    case (Some target)
    show ?thesis
    proof (cases "probe env (visit (Some target) s) target")
      case (Inl e)
      then show ?thesis using that(3) Inr pf Some by (simp add: resolve_one_eq)
    next
      case r: (Inr kus)
      obtain key usage s3 where kus: "kus = (key, usage, s3)" by (cases kus)
      have key: "key = target_key target" using r kus probe_calls(2) by blast
      show ?thesis
      proof (cases usage)
        case (UStr msg)
        then show ?thesis using that(4) Inr pf Some r kus key by (simp add: resolve_one_eq)
      next
        case (UList es)
        obtain svcs s4 where sl: "service_loop env es ({}, s3) = (svcs, s4)"
          by (cases "service_loop env es ({}, s3)")
        then show ?thesis using that(5) Inr pf Some r kus key UList by (simp add: resolve_one_eq)
      qed
    qed
  qed
qed

lemma primaries_append: "primaries (xs @ ys) = primaries xs @ primaries ys"
  by (induction xs) (auto split: sum.splits)

lemma primaries_Cons: "primaries (t # ts) = primaries [t] @ primaries ts"
  by (simp split: sum.splits)

lemma primaries_member: "p \<in> set (primaries ts) \<longleftrightarrow> (\<exists>t \<in> set ts. p \<in> set (primaries [t]))"
proof (induction ts)
  case Nil
  then show ?case by simp
next
  case (Cons t ts)
  have "p \<in> set (primaries (t # ts)) \<longleftrightarrow> p \<in> set (primaries [t]) \<or> p \<in> set (primaries ts)"
    by (subst primaries_Cons) simp
  with Cons show ?case by (simp del: primaries.simps)
qed

lemma primaries_set:
  "{p. \<exists>t \<in> set ts. p \<in> set (primaries [t])} = set (primaries ts)"
  "{p. \<exists>t \<in> set ts. Some p \<in> set (primaries [t])} = {p. Some p \<in> set (primaries ts)}"
  using primaries_member[of _ ts] by blast+

lemma resolve_one_visited:
  "visited (final (resolve_one env s t)) = visited s \<union> set (primaries [t])"
proof (cases rule: resolve_one_cases[where t=t and env=env and s=s])
  case (probe_list target failover es s3 svcs s4)
  then show ?thesis
    using probe_frame(2)[OF probe_list(2)] service_loop_frame[OF probe_list(3)]
    by (simp add: discover_frame)
qed (auto dest: probe_frame(2))

lemma resolve_one_popped:
  "popped (final (resolve_one env s t)) = popped s"
proof (cases rule: resolve_one_cases[where t=t and env=env and s=s])
  case (probe_list target failover es s3 svcs s4)
  then show ?thesis
    using probe_frame(5)[OF probe_list(2)] service_loop_frame[OF probe_list(3)]
    by (simp add: discover_frame)
qed (auto dest: probe_frame(5))

lemma resolve_one_lookups:
  assumes "distinct (lookups (calls s))" "set (lookups (calls s)) = processed_pids s"
  shows "distinct (lookups (calls (final (resolve_one env s t))))
    \<and> set (lookups (calls (final (resolve_one env s t)))) = processed_pids (final (resolve_one env s t))"
proof (cases rule: resolve_one_cases[where t=t and env=env and s=s])
  case (probe_str target failover msg s3)
  then show ?thesis
    using assms probe_calls(1)[OF probe_str(2)] probe_frame(4)[OF probe_str(2)] by simp
next
  case (probe_list target failover es s3 svcs s4)
  have "distinct (lookups (calls s3)) \<and> set (lookups (calls s3)) = processed_pids s3"
    using assms probe_calls(1)[OF probe_list(2)] probe_frame(4)[OF probe_list(2)] by simp
  then have "distinct (lookups (calls s4)) \<and> set (lookups (calls s4)) = processed_pids s4"
    using service_loop_lookups[OF probe_list(3)] by simp
  then show ?thesis using probe_list(4) by (simp add: discover_frame)
qed (use assms in auto)

lemma resolve_one_keys:
  "dom (details (final (resolve_one env s t)))
     \<subseteq> dom (details s) \<union> target_key ` {p. Some p \<in> set (primaries [t])}"
proof (cases rule: resolve_one_cases[where t=t and env=env and s=s])
  case (probe_str target failover msg s3)
  then show ?thesis using probe_frame(3)[OF probe_str(2)] by auto
next
  case (probe_list target failover es s3 svcs s4)
  then show ?thesis
    using probe_frame(3)[OF probe_list(2)] service_loop_frame[OF probe_list(3)]
    by (auto simp: discover_frame)
qed auto

lemma resolve_one_targets:
  "set (targets (final (resolve_one env s t))) \<subseteq> set (targets s) \<union> Str ` Collect discovered_form"
  "set (targets s) \<subseteq> set (targets (final (resolve_one env s t)))"
proof -
  show "set (targets (final (resolve_one env s t))) \<subseteq> set (targets s) \<union> Str ` Collect discovered_form"
  proof (cases rule: resolve_one_cases[where t=t and env=env and s=s])
    case (probe_str target failover msg s3)
    then show ?thesis using probe_frame(1)[OF probe_str(2)] by auto
  next
    case (probe_list target failover es s3 svcs s4)
    then show ?thesis
      using probe_frame(1)[OF probe_list(2)] service_loop_frame[OF probe_list(3)]
        discover_targets(2)[of es "store (target_key target) (UList es) svcs s4"]
      by auto
  qed auto
  show "set (targets s) \<subseteq> set (targets (final (resolve_one env s t)))"
  proof (cases rule: resolve_one_cases[where t=t and env=env and s=s])
    case (probe_str target failover msg s3)
    then show ?thesis using probe_frame(1)[OF probe_str(2)] by auto
  next
    case (probe_list target failover es s3 svcs s4)
    then show ?thesis
      using probe_frame(1)[OF probe_list(2)] service_loop_frame[OF probe_list(3)]
        discover_targets(1)[of "store (target_key target) (UList es) svcs s4" es]
      by auto
  qed auto
qed

lemma resolve_one_probes:
  "filter is_probe (calls (final (resolve_one env s t))) = filter is_probe (calls s) @ probes_of t"
proof (cases rule: resolve_one_cases[where t=t and env=env and s=s])
  case (probe_error target failover e)
  then show ?thesis using probe_address_eq(2)[OF probe_error(2)] by (simp add: probes_of_def)
next
  case (probe_str target failover msg s3)
  then show ?thesis using probe_address_eq(1)[OF probe_str(2)] by (auto simp: probes_of_def)
next
  case (probe_list target failover es s3 svcs s4)
  then show ?thesis
    using probe_address_eq(1)[OF probe_list(2)] service_loop_probes[OF probe_list(3)]
    by (auto simp: probes_of_def discover_frame)
qed (auto simp: probes_of_def)

lemma resolve_one_not_unpackable:
  "\<not> unpackable t \<Longrightarrow> resolve_one env s t = Inl (ValueError, s)"
  by (cases t rule: unpack.cases) (auto simp: resolve_one_def)

lemma resolve_one_isl:
  "isl (resolve_one env s t) =
     (case unpack t of
        Inl e \<Rightarrow> True
      | Inr (primary, failover) \<Rightarrow>
         (case primary of
            None \<Rightarrow> True
          | Some target \<Rightarrow>
             (case probe env s target of
                Inl e \<Rightarrow> True
              | Inr (key, usage, s3) \<Rightarrow>
                 (case usage of
                    UStr msg \<Rightarrow> False
                  | UList es \<Rightarrow> isl (new_ports es) \<or> isl (new_sockets es)))))"
  unfolding resolve_one_eq probe_visit
  by (simp add: discover_isl split: sum.splits option.splits usage.splits prod.splits)

lemma resolve_one_isl_details:
  "isl (resolve_one env (s\<lparr>details := d\<rparr>) t) = isl (resolve_one env s t)"
  unfolding resolve_one_isl probe_details
  by (simp split: sum.splits option.splits usage.splits prod.splits)

lemma resolve_one_details:
  assumes "resolve_one env s t = Inr s'" "unpack t = Inr (Some target, failover)"
  shows "\<exists>usage s3 svcs. probe env s target = Inr (target_key target, usage, s3)
      \<and> details s' = (details s)(target_key target \<mapsto> \<lparr>usage_info = usage, systemctl_service = svcs\<rparr>)"
proof (cases rule: resolve_one_cases[where t=t and env=env and s=s])
  case (probe_str target' failover' msg s3)
  then show ?thesis using assms probe_frame(3)[OF probe_str(2)]
    by (auto simp: probe_visit split: sum.splits)
next
  case (probe_list target' failover' es s3 svcs s4)
  let ?x = "store (target_key target') (UList es) svcs s4"
  have "discover es ?x = Inr s'" using probe_list(4) assms(1) by simp
  then have "details s' = details ?x" using discover_frame(2)[of es ?x] by simp
  then show ?thesis
    using assms probe_list(1,2) probe_frame(3)[OF probe_list(2)] service_loop_frame[OF probe_list(3)]
    by (auto simp: probe_visit split: sum.splits)
qed (use assms in auto)

lemma tuple_failover_irrelevant:
  "resolve_one env s (Tuple primary failover) = resolve_one env s (Tuple primary failover')"
  by (simp add: resolve_one_eq)

lemma discovered_form_length: "discovered_form a \<Longrightarrow> 5 \<le> length a"
  by (auto simp: discovered_form_def prefix_def)

lemma discovered_primaries: "discovered_form a \<Longrightarrow> primaries [Str a] = []"
  using discovered_form_length[of a] by (cases "Str a" rule: unpack.cases) auto

lemma discovered_probes: "discovered_form a \<Longrightarrow> probes_of (Str a) = []"
  using discovered_form_length[of a] by (cases "Str a" rule: unpack.cases) (auto simp: probes_of_def)

section \<open>Runs\<close>

lemma pop_simps:
  "visited (snd (pop k s)) = visited s" "details (snd (pop k s)) = details s"
  "processed_pids (snd (pop k s)) = processed_pids s" "calls (snd (pop k s)) = calls s"
  "popped (snd (pop k s)) = popped s @ [fst (pop k s)]"
  by (simp_all add: pop_def Let_def)

lemma pop_targets:
  assumes "targets s \<noteq> []"
  shows "fst (pop k s) \<in> set (targets s)" "set (targets (snd (pop k s))) \<subseteq> set (targets s)"
    "set (targets s) = insert (fst (pop k s)) (set (targets (snd (pop k s))))"
proof -
  let ?xs = "targets s"
  let ?i = "k mod length ?xs"
  have i: "?i < length ?xs" using assms by simp
  show "fst (pop k s) \<in> set (targets s)" using i by (simp add: pop_def Let_def)
  have eq: "?xs = take ?i ?xs @ ?xs ! ?i # drop (Suc ?i) ?xs"
    using i by (rule id_take_nth_drop)
  have "set ?xs = insert (?xs ! ?i) (set (take ?i ?xs) \<union> set (drop (Suc ?i) ?xs))"
    by (subst eq) (simp del: append_take_drop_id)
  then show "set (targets s) = insert (fst (pop k s)) (set (targets (snd (pop k s))))"
    by (simp add: pop_def Let_def)
  then show "set (targets (snd (pop k s))) \<subseteq> set (targets s)" by auto
qed

text \<open>Invariants of a run, and relations between the state at its start and at its end.\<close>

lemma resolve_loop_invariant:
  assumes "P s"
    and "\<And>s k. P s \<Longrightarrow> targets s \<noteq> [] \<Longrightarrow>
           P (final (resolve_one env (snd (pop k s)) (fst (pop k s))))"
  shows "P (final (resolve_loop env sched n s))"
  using assms
proof (induction env sched n s rule: resolve_loop.induct)
  case (1 env sched n s)
  show ?case
  proof (cases "targets s = []")
    case True
    then show ?thesis using 1(2) by (simp add: resolve_loop.simps)
  next
    case False
    let ?r = "resolve_one env (snd (pop (sched n) s)) (fst (pop (sched n) s))"
    have P: "P (final ?r)" using 1(3)[OF 1(2) False] .
    show ?thesis
    proof (cases ?r)
      case (Inl es)
      then show ?thesis using P False by (subst resolve_loop.simps) (cases es, simp)
    next
      case (Inr s')
      then have "P (final (resolve_loop env sched (Suc n) s'))"
        using 1(1)[OF False Inr _ 1(3)] P by simp
      then show ?thesis using False Inr by (subst resolve_loop.simps) simp
    qed
  qed
qed

lemma resolve_loop_relation:
  assumes "\<And>s. R s s"
    and "\<And>a b c. R a b \<Longrightarrow> R b c \<Longrightarrow> R a c"
    and "\<And>s k. targets s \<noteq> [] \<Longrightarrow>
           R s (final (resolve_one env (snd (pop k s)) (fst (pop k s))))"
  shows "R s (final (resolve_loop env sched n s))"
proof -
  have "R s0 s \<Longrightarrow> R s0 (final (resolve_loop env sched n s))" for s0
    by (rule resolve_loop_invariant[where P = "R s0"]) (use assms in blast)+
  then show ?thesis using assms(1) by blast
qed

lemma resolve_loop_pops:
  "length (popped (final (resolve_loop env sched n s)))
     \<le> length (popped s) + length (filter unpackable (targets s)) + 1"
proof (induction env sched n s rule: resolve_loop.induct)
  case (1 env sched n s)
  show ?case
  proof (cases "targets s = []")
    case True
    then show ?thesis by (simp add: resolve_loop.simps)
  next
    case False
    let ?t = "fst (pop (sched n) s)" and ?s = "snd (pop (sched n) s)"
    show ?thesis
    proof (cases "resolve_one env ?s ?t")
      case (Inl es)
      have "popped (final (resolve_one env ?s ?t)) = popped s @ [?t]"
        by (simp add: resolve_one_popped pop_simps)
      then show ?thesis using Inl False by (subst resolve_loop.simps) (cases es, simp)
    next
      case (Inr s')
      have p: "popped s' = popped s @ [?t]"
        using resolve_one_popped[of env ?s ?t] Inr by (simp add: pop_simps)
      have "Suc (length (filter unpackable (targets s'))) = length (filter unpackable (targets s))"
        using resolve_one_unpackable[OF Inr] pop_unpackable[OF False, of "sched n"] by simp
      then show ?thesis using 1[OF False Inr] p False Inr
        by (subst resolve_loop.simps) simp
    qed
  qed
qed

lemma resolve_loop_popped_prefix:
  "prefix (popped s) (popped (final (resolve_loop env sched n s)))"
proof (rule resolve_loop_relation[where R = "\<lambda>a b. prefix (popped a) (popped b)"])
  show "\<And>a b c. prefix (popped a) (popped b) \<Longrightarrow> prefix (popped b) (popped c)
      \<Longrightarrow> prefix (popped a) (popped c)"
    by (rule prefix_order.trans)
qed (simp_all add: resolve_one_popped pop_simps)

lemma resolve_loop_returns:
  "resolve_loop env sched n s = Inr s' \<Longrightarrow>
     targets s' = []
     \<and> length (popped s') = length (popped s) + length (filter unpackable (targets s))
     \<and> list_all unpackable (drop (length (popped s)) (popped s'))"
proof (induction env sched n s rule: resolve_loop.induct)
  case (1 env sched n s)
  show ?case
  proof (cases "targets s = []")
    case True
    then show ?thesis using 1(2) by (simp add: resolve_loop.simps)
  next
    case False
    let ?t = "fst (pop (sched n) s)" and ?s = "snd (pop (sched n) s)"
    show ?thesis
    proof (cases "resolve_one env ?s ?t")
      case (Inl es)
      then show ?thesis using 1(2) False by (subst (asm) resolve_loop.simps) simp
    next
      case (Inr s1)
      have p: "popped s1 = popped s @ [?t]"
        using resolve_one_popped[of env ?s ?t] Inr by (simp add: pop_simps)
      have u: "unpackable ?t" using resolve_one_unpackable(1)[OF Inr] .
      have c: "Suc (length (filter unpackable (targets s1))) = length (filter unpackable (targets s))"
        using resolve_one_unpackable[OF Inr] pop_unpackable[OF False, of "sched n"] by simp
      have "resolve_loop env sched (Suc n) s1 = Inr s'"
        using 1(2) False Inr by (subst (asm) resolve_loop.simps) simp
      from 1(1)[OF False Inr this]
      have ih: "targets s' = []"
        "length (popped s') = length (popped s1) + length (filter unpackable (targets s1))"
        "list_all unpackable (drop (length (popped s1)) (popped s'))" by auto
      have le: "length (popped s) < length (popped s')" using ih(2) p by simp
      have pre: "take (length (popped s1)) (popped s') = popped s1"
        using resolve_loop_popped_prefix[of s1 env sched "Suc n"]
          \<open>resolve_loop env sched (Suc n) s1 = Inr s'\<close>
        by (auto simp: prefix_def)
      have "drop (length (popped s)) (popped s') = ?t # drop (length (popped s1)) (popped s')"
      proof -
        have "popped s' = popped s1 @ drop (length (popped s1)) (popped s')"
          using pre by (metis append_take_drop_id)
        then have "popped s' = popped s @ ?t # drop (length (popped s1)) (popped s')"
          using p by simp
        then show ?thesis by (metis append_eq_conv_conj)
      qed
      then show ?thesis using ih u c p by simp
    qed
  qed
qed

lemma resolve_loop_visited:
  "\<exists>new. popped (final (resolve_loop env sched n s)) = popped s @ new
     \<and> visited (final (resolve_loop env sched n s)) = visited s \<union> set (primaries new)"
  by (rule resolve_loop_relation[where
        R = "\<lambda>a b. \<exists>new. popped b = popped a @ new \<and> visited b = visited a \<union> set (primaries new)"])
    (auto simp: resolve_one_popped resolve_one_visited pop_simps primaries_append)

lemma resolve_loop_keeps_entries:
  "set (targets s) \<union> set (popped s)
     \<subseteq> set (targets (final (resolve_loop env sched n s)))
       \<union> set (popped (final (resolve_loop env sched n s)))"
proof (rule resolve_loop_relation[where
      R = "\<lambda>a b. set (targets a) \<union> set (popped a) \<subseteq> set (targets b) \<union> set (popped b)"])
  fix s :: state and k
  assume ne: "targets s \<noteq> []"
  let ?t = "fst (pop k s)" and ?s = "snd (pop k s)"
  have "set (targets s) \<union> set (popped s) \<subseteq> set (targets ?s) \<union> set (popped ?s)"
    using pop_targets(3)[OF ne, of k] by (auto simp: pop_simps)
  also have "\<dots> \<subseteq> set (targets (final (resolve_one env ?s ?t)))
      \<union> set (popped (final (resolve_one env ?s ?t)))"
    using resolve_one_targets(2)[of ?s env ?t] by (auto simp: resolve_one_popped)
  finally show "set (targets s) \<union> set (popped s)
      \<subseteq> set (targets (final (resolve_one env ?s ?t)))
        \<union> set (popped (final (resolve_one env ?s ?t)))" .
qed auto

text \<open>
  Every run ends, by return or by exception, after at most one pop more than the input
  has entries that unpack; the visited set is then the set of the primaries of the popped
  entries that unpacked. A run that returns has popped entries that unpack only.
\<close>

lemma resolve_loop_ends:
  "visited (final (resolve_loop env sched 0 (initial ts)))
     = set (primaries (popped (final (resolve_loop env sched 0 (initial ts)))))
   \<and> length (popped (final (resolve_loop env sched 0 (initial ts))))
       \<le> Suc (length (filter unpackable (remdups ts)))
   \<and> (\<forall>s'. resolve_loop env sched 0 (initial ts) = Inr s' \<longrightarrow>
         targets s' = [] \<and> list_all unpackable (popped s')
         \<and> length (popped s') = length (filter unpackable (remdups ts)))"
proof (intro conjI allI impI)
  show "visited (final (resolve_loop env sched 0 (initial ts)))
     = set (primaries (popped (final (resolve_loop env sched 0 (initial ts)))))"
    using resolve_loop_visited[of env sched 0 "initial ts"] by (auto simp: initial_def)
  show "length (popped (final (resolve_loop env sched 0 (initial ts))))
       \<le> Suc (length (filter unpackable (remdups ts)))"
    using resolve_loop_pops[of env sched 0 "initial ts"] by (simp add: initial_def)
next
  fix s' assume "resolve_loop env sched 0 (initial ts) = Inr s'"
  from resolve_loop_returns[OF this]
  show "targets s' = []" "list_all unpackable (popped s')"
    "length (popped s') = length (filter unpackable (remdups ts))"
    by (simp_all add: initial_def)
qed

text \<open>A frontier entry that does not unpack is popped sooner or later: the run raises.\<close>

lemma resolve_loop_blocked:
  "\<exists>t \<in> set (targets s). \<not> unpackable t \<Longrightarrow> isl (resolve_loop env sched n s)"
proof (induction env sched n s rule: resolve_loop.induct)
  case (1 env sched n s)
  from 1(2) obtain b where b: "b \<in> set (targets s)" "\<not> unpackable b" by blast
  then have ne: "targets s \<noteq> []" by auto
  let ?t = "fst (pop (sched n) s)" and ?s = "snd (pop (sched n) s)"
  show ?case
  proof (cases "resolve_one env ?s ?t")
    case (Inl es)
    then show ?thesis using ne by (subst resolve_loop.simps) simp
  next
    case (Inr s1)
    have "unpackable ?t" using resolve_one_unpackable(1)[OF Inr] .
    then have "b \<in> set (targets ?s)"
      using b pop_targets(3)[OF ne, of "sched n"] by auto
    then have "b \<in> set (targets s1)"
      using resolve_one_targets(2)[of ?s env ?t] Inr by auto
    then have "isl (resolve_loop env sched (Suc n) s1)"
      using 1(1)[OF ne Inr] b(2) by blast
    then show ?thesis using ne Inr by (subst resolve_loop.simps) simp
  qed
qed

lemma reach_step:
  assumes "reach A s" "targets s \<noteq> []"
  shows "reach A (final (resolve_one env (snd (pop k s)) (fst (pop k s))))"
proof -
  let ?t = "fst (pop k s)" and ?s = "snd (pop k s)"
  let ?f = "final (resolve_one env ?s ?t)"
  have t: "?t \<in> A \<union> Str ` Collect discovered_form"
    using pop_targets(1)[OF assms(2), of k] assms(1) by (auto simp: reach_def)
  have prim: "set (primaries [?t]) \<subseteq> {p. \<exists>t \<in> A. p \<in> set (primaries [t])}"
    using t discovered_primaries by (auto simp del: primaries.simps)
  have prob: "set (probes_of ?t) \<subseteq> {c. \<exists>t \<in> A. c \<in> set (probes_of t)}"
    using t discovered_probes by auto
  have 1: "set (targets ?f) \<union> set (popped ?f) \<subseteq> A \<union> Str ` Collect discovered_form"
    using resolve_one_targets(1)[of env ?s ?t] pop_targets(2)[OF assms(2), of k] t assms(1)
    by (auto simp: resolve_one_popped pop_simps reach_def)
  have 2: "visited ?f \<subseteq> {p. \<exists>t \<in> A. p \<in> set (primaries [t])}"
    using prim assms(1) by (auto simp: resolve_one_visited pop_simps reach_def simp del: primaries.simps)
  have 3: "dom (details ?f) \<subseteq> target_key ` {p. \<exists>t \<in> A. Some p \<in> set (primaries [t])}"
    using resolve_one_keys[of env ?s ?t] prim assms(1)
    by (auto simp: pop_simps reach_def simp del: primaries.simps) blast
  have 4: "set (filter is_probe (calls ?f)) \<subseteq> {c. \<exists>t \<in> A. c \<in> set (probes_of t)}"
    using prob assms(1) by (auto simp: resolve_one_probes pop_simps reach_def)
  show ?thesis using 1 2 3 4 unfolding reach_def by blast
qed

lemma reach_run: "reach (set ts) (final (resolve_loop env sched 0 (initial ts)))"
proof (rule resolve_loop_invariant[where P = "reach (set ts)"])
  show "reach (set ts) (initial ts)" by (simp add: reach_def initial_def)
next
  fix s k assume "reach (set ts) s" "targets s \<noteq> []"
  then show "reach (set ts) (final (resolve_one env (snd (pop k s)) (fst (pop k s))))"
    by (rule reach_step)
qed

text \<open>Runs in which nothing is discovered.\<close>

lemma probe_quiet:
  "quiet_env env \<Longrightarrow> probe env s target = Inr (key, usage, s') \<Longrightarrow> quiet usage"
  by (auto simp: probe_def quiet_env_def Let_def split: if_splits list.splits)

lemma discover_quiet: "quiet (UList es) \<Longrightarrow> discover es s = Inr s"
  by (simp add: quiet_def discover_def)

lemma probeable_unpack:
  "probeable t \<Longrightarrow> \<exists>target failover c. unpack t = Inr (Some target, failover)
      \<and> probe_address target = Some c \<and> primaries [t] = [Some target]"
  by (auto simp: probeable_def probes_of_def split: sum.splits option.splits)

lemma probeable_unpackable: "probeable t \<Longrightarrow> unpackable t"
  by (cases t rule: unpack.cases) (auto simp: probeable_def probes_of_def)

lemma resolve_one_quiet:
  assumes "quiet_env env" "probeable t"
  shows "\<exists>s'. resolve_one env s t = Inr s' \<and> targets s' = targets s
      \<and> dom (details s') = dom (details s) \<union> target_key ` {p. Some p \<in> set (primaries [t])}"
proof -
  from probeable_unpack[OF assms(2)] obtain target failover c where
    u: "unpack t = Inr (Some target, failover)" and c: "probe_address target = Some c"
    and p: "primaries [t] = [Some target]" by blast
  show ?thesis
  proof (cases rule: resolve_one_cases[where t=t and env=env and s=s])
    case unpack_error
    then show ?thesis using u by simp
  next
    case (no_primary failover)
    then show ?thesis using u by simp
  next
    case (probe_error target' failover' e)
    then show ?thesis using u c probe_address_eq(2)[OF probe_error(2)] by simp
  next
    case (probe_str target' failover' msg s3)
    then show ?thesis using u p probe_frame[OF probe_str(2)] by auto
  next
    case (probe_list target' failover' es s3 svcs s4)
    have "quiet (UList es)" using probe_quiet[OF assms(1) probe_list(2)] .
    then have "resolve_one env s t = Inr (store (target_key target') (UList es) svcs s4)"
      using probe_list(4) by (simp add: discover_quiet)
    then show ?thesis
      using u p probe_list(1) probe_frame[OF probe_list(2)] service_loop_frame[OF probe_list(3)]
      by auto
  qed
qed

lemma resolve_one_quiet_record:
  assumes u: "unpack t = Inr (Some target, failover)"
    and p: "probe env s target = Inr (key, usage, s3)"
    and q: "quiet usage"
  shows "\<exists>s' new. resolve_one env s t = Inr s' \<and> targets s' = targets s
      \<and> visited s' = insert (Some target) (visited s)
      \<and> calls s' = calls s3 @ new \<and> filter is_probe new = []
      \<and> set (lookups new)
          = (case usage of
               UStr msg \<Rightarrow> {}
             | UList es \<Rightarrow> {pid. EStr pid \<in> set es \<and> pid \<noteq> [] \<and> pid \<notin> processed_pids s})
      \<and> processed_pids s' = processed_pids s \<union> set (lookups new)
      \<and> details s' = (details s)(target_key target \<mapsto>
            \<lparr>usage_info = usage,
             systemctl_service = services_of env (length (calls s3)) new\<rparr>)"
proof (cases usage)
  case (UStr msg)
  have "resolve_one env s t = Inr (store key usage {} (visit (Some target) s3))"
    using u p UStr by (simp add: resolve_one_eq probe_visit)
  then show ?thesis
    using probe_frame[OF p] probe_calls(2)[OF p] UStr
    by (intro exI[where x = "store key usage {} (visit (Some target) s3)"] exI[where x = "[]"]) simp
next
  case (UList es)
  obtain svcs s4 where sl: "service_loop env es ({}, visit (Some target) s3) = (svcs, s4)"
    by (cases "service_loop env es ({}, visit (Some target) s3)")
  have d: "discover es (store key usage svcs s4) = Inr (store key usage svcs s4)"
    using q UList by (simp add: discover_quiet)
  have r: "resolve_one env s t = Inr (store key usage svcs s4)"
    using u p UList sl d by (simp add: resolve_one_eq probe_visit)
  from service_loop_trace[OF sl] obtain new where new:
    "calls s4 = calls s3 @ new" "filter is_probe new = []"
    "svcs = services_of env (length (calls s3)) new"
    "set (lookups new) = {pid. EStr pid \<in> set es \<and> pid \<noteq> [] \<and> pid \<notin> processed_pids s3}"
    by auto
  have pp: "processed_pids s4 = processed_pids s3 \<union> {pid. EStr pid \<in> set es \<and> pid \<noteq> []}"
    using service_loop_pids[OF sl] by simp
  have fr: "targets s4 = targets s3" "visited s4 = insert (Some target) (visited s3)"
    "details s4 = details s3"
    using service_loop_frame[OF sl] by simp_all
  show ?thesis
    using r new pp fr probe_frame[OF p] probe_calls(2)[OF p] UList
    by (intro exI[where x = "store key usage svcs s4"] exI[where x = new]) auto
qed

lemma resolve_loop_quiet:
  assumes "quiet_env env"
  shows "\<forall>t \<in> set (targets s). probeable t \<Longrightarrow>
    \<exists>s'. resolve_loop env sched n s = Inr s' \<and> targets s' = []
      \<and> dom (details s') = dom (details s) \<union> target_key ` {p. Some p \<in> set (primaries (targets s))}"
  using assms
proof (induction env sched n s rule: resolve_loop.induct)
  case (1 env sched n s)
  show ?case
  proof (cases "targets s = []")
    case True
    then show ?thesis by (simp add: resolve_loop.simps)
  next
    case False
    let ?t = "fst (pop (sched n) s)" and ?s = "snd (pop (sched n) s)"
    have t: "probeable ?t" using pop_targets(1)[OF False] 1(2) by blast
    from resolve_one_quiet[OF 1(3) t, of ?s] obtain s1 where
      s1: "resolve_one env ?s ?t = Inr s1" "targets s1 = targets ?s"
      "dom (details s1) = dom (details ?s) \<union> target_key ` {p. Some p \<in> set (primaries [?t])}"
      by blast
    have "\<forall>t \<in> set (targets s1). probeable t"
      using s1(2) pop_targets(2)[OF False] 1(2) by auto
    from 1(1)[OF False s1(1) this 1(3)] obtain s' where
      s': "resolve_loop env sched (Suc n) s1 = Inr s'" "targets s' = []"
      "dom (details s') = dom (details s1) \<union> target_key ` {p. Some p \<in> set (primaries (targets s1))}"
      by blast
    have r: "resolve_loop env sched n s = Inr s'"
      using False s1(1) s'(1) by (subst resolve_loop.simps) simp
    have "{p. Some p \<in> set (primaries (targets s))}
        = {p. Some p \<in> set (primaries [?t])} \<union> {p. Some p \<in> set (primaries (targets s1))}"
      using pop_targets(3)[OF False, of "sched n"] s1(2)
      unfolding primaries_member[of _ "targets s"] primaries_member[of _ "targets s1"] by auto
    then have "dom (details s') = dom (details s) \<union> target_key ` {p. Some p \<in> set (primaries (targets s))}"
      using s'(3) s1(3) by (auto simp: pop_simps)
    then show ?thesis using r s'(2) by blast
  qed
qed

lemma resolve_loop_quiet_popped:
  assumes "quiet_env env" "\<forall>t \<in> set ts. probeable t"
    and r: "resolve_loop env sched 0 (initial ts) = Inr s'"
  shows "set (popped s') = set ts" "distinct (popped s')"
proof -
  from resolve_loop_returns[OF r] have e: "targets s' = []"
    and len: "length (popped s') = length (filter unpackable (remdups ts))"
    and u: "list_all unpackable (popped s')"
    by (simp_all add: initial_def)
  have "set ts \<subseteq> set (popped s')"
    using resolve_loop_keeps_entries[of "initial ts" env sched 0] r e by (simp add: initial_def)
  moreover have "set (popped s') \<subseteq> set ts"
  proof
    fix x assume x: "x \<in> set (popped s')"
    have "reach (set ts) s'" using reach_run[of ts env sched] r by simp
    then have "x \<in> set ts \<union> Str ` Collect discovered_form" using x by (auto simp: reach_def)
    moreover have "unpackable x" using u x by (simp add: list_all_iff)
    ultimately show "x \<in> set ts"
      using discovered_form_length by fastforce
  qed
  ultimately show s: "set (popped s') = set ts" by blast
  have "filter unpackable (remdups ts) = remdups ts"
    using assms(2) probeable_unpackable by (auto simp: filter_id_conv)
  then have "length (popped s') = card (set (popped s'))"
    using len s by (simp add: length_remdups_card_conv)
  then show "distinct (popped s')" by (simp add: card_distinct)
qed

text \<open>The probes of the source answer with strings only, so they discover nothing.\<close>

lemma new_ports_strings: "new_ports (map EStr xs) = Inr [] \<or> new_ports (map EStr xs) = Inl TypeError"
  by (induction xs) auto

lemma new_sockets_strings:
  "new_sockets (map EStr xs) = Inr [] \<or> new_sockets (map EStr xs) = Inl TypeError"
  by (induction xs) auto

lemma source_usage_strings:
  "(\<exists>msg. port_usage (source_env run) n host port = UStr msg)
     \<or> (\<exists>xs. port_usage (source_env run) n host port = UList (map EStr xs))"
  "\<exists>xs. socket_usage (source_env run) n socket_path = UList (map EStr xs)"
proof -
  show "(\<exists>msg. port_usage (source_env run) n host port = UStr msg)
     \<or> (\<exists>xs. port_usage (source_env run) n host port = UList (map EStr xs))"
    by (auto simp: source_env_def check_port_usage_def split: sum.splits)
  have "UList [] = UList (map EStr [])" by simp
  then show "\<exists>xs. socket_usage (source_env run) n socket_path = UList (map EStr xs)"
    by (auto simp: source_env_def check_unix_socket_usage_def split: sum.splits)
qed

lemma source_probe_strings:
  assumes "probe (source_env run) s target = Inr (key, usage, s3)"
  shows "(\<exists>msg. usage = UStr msg) \<or> (\<exists>xs. usage = UList (map EStr xs))"
proof (cases "prefix ''unix:'' target")
  case True
  then show ?thesis using assms source_usage_strings(2)[of run]
    by (auto simp: probe_def Let_def)
next
  case False
  then show ?thesis using assms source_usage_strings(1)[of run]
    by (auto simp: probe_def Let_def split: if_splits list.splits)
qed

lemma source_probes_discover_nothing:
  assumes "resolve_one (source_env run) s t = Inr s'"
  shows "targets s' = targets s"
proof (cases rule: resolve_one_cases[where t=t and env="source_env run" and s=s])
  case (probe_str target failover msg s3)
  then show ?thesis using assms probe_frame(1)[OF probe_str(2)] by simp
next
  case (probe_list target failover es s3 svcs s4)
  from source_probe_strings[OF probe_list(2)] obtain xs where xs: "es = map EStr xs" by auto
  let ?x = "store (target_key target) (UList es) svcs s4"
  have d: "discover es ?x = Inr s'" using probe_list(4) assms by simp
  have "new_ports es = Inr []" "new_sockets es = Inr []"
    using d new_ports_strings[of xs] new_sockets_strings[of xs] xs
    by (auto simp: discover_def Let_def split: sum.splits)
  then have "s' = ?x" using d by (simp add: discover_def)
  then show ?thesis
    using probe_frame(1)[OF probe_list(2)] service_loop_frame[OF probe_list(3)] by simp
qed (use assms in auto)

section \<open>Example runs\<close>

lemmas run_simps =
  initial_def resolve_loop.simps pop_def resolve_one_def probe_def discover_def set_add_def
  index_def truthy_def Let_def

lemmas source_simps =
  source_env_def check_port_usage_def check_unix_socket_usage_def get_systemctl_service_def
  parse_systemctl_service_status_def strip_def isspace_def

lemma cycle_run:
  "resolve_loop cycle_env (\<lambda>n. 0) 0
     (initial [Tuple (Some ''127.0.0.1:8080'') None, Tuple (Some ''127.0.0.1:8081'') None])
   = Inl (ValueError,
       \<lparr>targets = [],
        visited = {Some ''127.0.0.1:8081'', Some ''127.0.0.1:8080''},
        details = [''127.0.0.1:8080'' \<mapsto>
                     \<lparr>usage_info = UList [EStr ''101'', EDict [(''name'', ''127.0.0.1:8081'')]],
                      systemctl_service = {''app.service''}\<rparr>,
                   ''127.0.0.1:8081'' \<mapsto>
                     \<lparr>usage_info = UList [EStr ''102'', EDict [(''name'', ''127.0.0.1:8080'')]],
                      systemctl_service = {''app.service''}\<rparr>],
        processed_pids = {''102'', ''101''},
        calls = [Port_probe ''127.0.0.1'' ''8080'', Service_lookup ''101'',
                 Port_probe ''127.0.0.1'' ''8081'', Service_lookup ''102''],
        popped = [Tuple (Some ''127.0.0.1:8080'') None, Tuple (Some ''127.0.0.1:8081'') None,
                  Str ''127.0.0.1:8081'']\<rparr>)"
  by (simp add: run_simps cycle_env_def)

lemma cycle_run_single:
  "resolve_loop cycle_env (\<lambda>n. 0) 0 (initial [Tuple (Some ''127.0.0.1:8080'') None])
   = Inl (ValueError,
       \<lparr>targets = [],
        visited = {Some ''127.0.0.1:8080''},
        details = [''127.0.0.1:8080'' \<mapsto>
                     \<lparr>usage_info = UList [EStr ''101'', EDict [(''name'', ''127.0.0.1:8081'')]],
                      systemctl_service = {''app.service''}\<rparr>],
        processed_pids = {''101''},
        calls = [Port_probe ''127.0.0.1'' ''8080'', Service_lookup ''101''],
        popped = [Tuple (Some ''127.0.0.1:8080'') None, Str ''127.0.0.1:8081'']\<rparr>)"
  by (simp add: run_simps cycle_env_def)

lemma cycle_run_other_order:
  "resolve_targets cycle_env (\<lambda>n. 1) 
     [Tuple (Some ''127.0.0.1:8080'') None, Tuple (Some ''127.0.0.1:8081'') None] = Inl ValueError"
  by (simp add: resolve_targets_def run_simps cycle_env_def)

lemma cycle_raises_any_order:
  "isl (resolve_loop cycle_env sched 0
     (initial [Tuple (Some ''127.0.0.1:8080'') None, Tuple (Some ''127.0.0.1:8081'') None]))"
proof -
  let ?s0 = "initial [Tuple (Some ''127.0.0.1:8080'') None, Tuple (Some ''127.0.0.1:8081'') None]"
  have ne: "targets ?s0 \<noteq> []" by (simp add: initial_def)
  have len: "length (targets ?s0) = Suc (Suc 0)" by (simp add: initial_def)
  let ?r = "resolve_one cycle_env (snd (pop (sched 0) ?s0)) (fst (pop (sched 0) ?s0))"
  have "sched 0 mod Suc (Suc 0) = 0 \<or> sched 0 mod Suc (Suc 0) = Suc 0" by arith
  then have "\<exists>s1. ?r = Inr s1 \<and> (\<exists>t \<in> set (targets s1). \<not> unpackable t)"
  proof
    assume "sched 0 mod Suc (Suc 0) = 0"
    then show ?thesis
      by (simp add: initial_def pop_def resolve_one_def probe_def discover_def set_add_def
          index_def truthy_def Let_def cycle_env_def)
  next
    assume "sched 0 mod Suc (Suc 0) = Suc 0"
    then show ?thesis
      by (simp add: initial_def pop_def resolve_one_def probe_def discover_def set_add_def
          index_def truthy_def Let_def cycle_env_def)
  qed
  then obtain s1 where s1: "?r = Inr s1" "\<exists>t \<in> set (targets s1). \<not> unpackable t" by blast
  have "isl (resolve_loop cycle_env sched (Suc 0) s1)"
    using resolve_loop_blocked[OF s1(2)] .
  then show ?thesis using ne s1(1) by (subst resolve_loop.simps) simp
qed

lemma no_lookups_Nil: "filter is_probe new = [] \<Longrightarrow> set (lookups new) = {} \<Longrightarrow> new = []"
proof (cases new)
  case (Cons c cs)
  assume "filter is_probe new = []" "set (lookups new) = {}"
  then show ?thesis using Cons by (cases c) auto
qed simp

lemma sibling_run:
  "resolve_loop (source_env example_os) (\<lambda>n. 0) 0
     (initial [Tuple (Some ''http://127.0.0.1:9000'') (Some ''http://127.0.0.1:9001''),
               Tuple (Some ''unix:/run/app.sock'') None,
               Tuple (Some ''http://127.0.0.1:3000'') None])
   = Inr
       \<lparr>targets = [],
        visited = {Some ''http://127.0.0.1:3000'', Some ''unix:/run/app.sock'',
                   Some ''http://127.0.0.1:9000''},
        details = [''127.0.0.1:9000'' \<mapsto>
                     \<lparr>usage_info = UStr ''Error checking port 9000 on 127.0.0.1: [Errno 2] No such file or directory'',
                      systemctl_service = {}\<rparr>,
                   ''unix:/run/app.sock'' \<mapsto>
                     \<lparr>usage_info = UList [EStr ''101'', EStr ''102''],
                      systemctl_service = {''Error finding service: list index out of range'', ''app.service''}\<rparr>,
                   ''127.0.0.1:3000'' \<mapsto>
                     \<lparr>usage_info = UList [EStr ''101'', EStr ''102''],
                      systemctl_service = {}\<rparr>],
        processed_pids = {''102'', ''101''},
        calls = [Port_probe ''127.0.0.1'' ''9000'', Socket_probe ''/run/app.sock'',
                 Service_lookup ''101'', Service_lookup ''102'',
                 Port_probe ''127.0.0.1'' ''3000''],
        popped = [Tuple (Some ''http://127.0.0.1:9000'') (Some ''http://127.0.0.1:9001''),
                  Tuple (Some ''unix:/run/app.sock'') None,
                  Tuple (Some ''http://127.0.0.1:3000'') None]\<rparr>"
  by (simp add: run_simps source_env_def example_os_def check_port_usage_def
      check_unix_socket_usage_def get_systemctl_service_def parse_systemctl_service_status_def
      strip_def isspace_def)

lemma sibling_final:
  "final (resolve_loop (source_env example_os) (\<lambda>n. 0) 0 (initial sibling_targets))
   = \<lparr>targets = [],
      visited = {Some ''http://127.0.0.1:3000'', Some ''unix:/run/app.sock'',
                 Some ''http://127.0.0.1:9000''},
      details = [''127.0.0.1:9000'' \<mapsto>
                   \<lparr>usage_info = UStr ''Error checking port 9000 on 127.0.0.1: [Errno 2] No such file or directory'',
                    systemctl_service = {}\<rparr>,
                 ''unix:/run/app.sock'' \<mapsto>
                   \<lparr>usage_info = UList [EStr ''101'', EStr ''102''],
                    systemctl_service = {''Error finding service: list index out of range'', ''app.service''}\<rparr>,
                 ''127.0.0.1:3000'' \<mapsto>
                   \<lparr>usage_info = UList [EStr ''101'', EStr ''102''],
                    systemctl_service = {}\<rparr>],
      processed_pids = {''102'', ''101''},
      calls = [Port_probe ''127.0.0.1'' ''9000'', Socket_probe ''/run/app.sock'',
               Service_lookup ''101'', Service_lookup ''102'',
               Port_probe ''127.0.0.1'' ''3000''],
      popped = [Tuple (Some ''http://127.0.0.1:9000'') (Some ''http://127.0.0.1:9001''),
                Tuple (Some ''unix:/run/app.sock'') None,
                Tuple (Some ''http://127.0.0.1:3000'') None]\<rparr>"
  unfolding sibling_targets_def sibling_run by simp

lemma sibling_primaries:
  "primaries sibling_targets
     = [Some ''http://127.0.0.1:9000'', Some ''unix:/run/app.sock'', Some ''http://127.0.0.1:3000'']"
  by (simp add: sibling_targets_def)

lemma sibling_keys:
  "target_key ` {p. Some p \<in> set (primaries sibling_targets)}
      = {''127.0.0.1:9000'', ''unix:/run/app.sock'', ''127.0.0.1:3000''}"
proof -
  have "{p. Some p \<in> set (primaries sibling_targets)}
      = {''http://127.0.0.1:9000'', ''unix:/run/app.sock'', ''http://127.0.0.1:3000''}"
    unfolding sibling_primaries by auto
  then show ?thesis by (simp add: target_key_def insert_commute)
qed

lemma example_lsof_quiet:
  "quiet (UList (map EStr (split_on CHR 0x0A (strip ''101\<newline>102\<newline>''))))"
  by (simp add: quiet_def strip_def isspace_def)

lemma quiet_example: "quiet_env (source_env example_os)"
  unfolding quiet_env_def source_env_def
proof (intro conjI allI)
  fix n host port
  show "quiet (port_usage \<lparr>port_usage = check_port_usage example_os,
      socket_usage = check_unix_socket_usage example_os,
      systemctl = get_systemctl_service example_os\<rparr> n host port)"
    using example_lsof_quiet
    by (simp add: check_port_usage_def example_os_def quiet_def)
next
  fix n socket_path
  show "quiet (socket_usage \<lparr>port_usage = check_port_usage example_os,
      socket_usage = check_unix_socket_usage example_os,
      systemctl = get_systemctl_service example_os\<rparr> n socket_path)"
    using example_lsof_quiet
    by (simp add: check_unix_socket_usage_def example_os_def quiet_def)
qed

lemma probeable_siblings: "\<forall>t \<in> set sibling_targets. probeable t"
  by (simp add: sibling_targets_def probeable_def probes_of_def probe_address_def target_key_def)

lemma overwrite_turn:
  "resolve_one (source_env changing_os) overwrite_before
     (Tuple (Some ''unix:/run/app.sock'') (Some ''http://127.0.0.1:9001'')) = Inr overwrite_after"
  by (simp add: run_simps source_simps changing_os_def overwrite_before_def overwrite_after_def)

lemma overwrite_run:
  "resolve_loop (source_env changing_os) (\<lambda>n. 0) 0
     (initial [Tuple (Some ''unix:/run/app.sock'') None,
               Tuple (Some ''unix:/run/app.sock'') (Some ''http://127.0.0.1:9001'')])
   = Inr overwrite_after"
  by (simp add: run_simps source_simps changing_os_def overwrite_after_def)

section \<open>The claims\<close>

text \<open>
  C1. The claim is that \<open>resolve_targets\<close> terminates for every input, cyclic discovery
  included, and that \<open>visited\<close> is then the set of the addresses that were popped.
  Evaluated on two targets whose probes name each other: the turn on either adds the
  address of the other to \<open>targets\<close> as a plain string, and popping that string raises
  ValueError at \<open>primary, failover = target\<close>. The run raises under every order of
  popping, so \<open>resolve_targets\<close> returns nothing. With the one target 8080 the string
  \<open>127.0.0.1:8081\<close> is popped and is not in \<open>visited\<close> when the exception is raised.
\<close>

theorem cyclic_discovery_raises:
  "isl (resolve_targets cycle_env sched
     [Tuple (Some ''127.0.0.1:8080'') None, Tuple (Some ''127.0.0.1:8081'') None])
   \<and> resolve_targets cycle_env (\<lambda>n. 0)
       [Tuple (Some ''127.0.0.1:8080'') None, Tuple (Some ''127.0.0.1:8081'') None] = Inl ValueError
   \<and> resolve_targets cycle_env (\<lambda>n. 1)
       [Tuple (Some ''127.0.0.1:8080'') None, Tuple (Some ''127.0.0.1:8081'') None] = Inl ValueError
   \<and> resolve_loop cycle_env (\<lambda>n. 0) 0 (initial [Tuple (Some ''127.0.0.1:8080'') None])
       = Inl (ValueError,
           \<lparr>targets = [],
            visited = {Some ''127.0.0.1:8080''},
            details = [''127.0.0.1:8080'' \<mapsto>
                         \<lparr>usage_info = UList [EStr ''101'', EDict [(''name'', ''127.0.0.1:8081'')]],
                          systemctl_service = {''app.service''}\<rparr>],
            processed_pids = {''101''},
            calls = [Port_probe ''127.0.0.1'' ''8080'', Service_lookup ''101''],
            popped = [Tuple (Some ''127.0.0.1:8080'') None, Str ''127.0.0.1:8081'']\<rparr>)"
proof (intro conjI)
  show "isl (resolve_targets cycle_env sched
     [Tuple (Some ''127.0.0.1:8080'') None, Tuple (Some ''127.0.0.1:8081'') None])"
    using cycle_raises_any_order[of sched]
    by (auto simp: resolve_targets_def split: sum.splits)
  show "resolve_targets cycle_env (\<lambda>n. 0)
       [Tuple (Some ''127.0.0.1:8080'') None, Tuple (Some ''127.0.0.1:8081'') None] = Inl ValueError"
    by (simp add: resolve_targets_def cycle_run)
qed (rule cycle_run_other_order cycle_run_single)+

text \<open>
  C2. Chain discovery: the claim is that the result holds an entry for an address that a
  probe result names. Evaluated on the chain 8080, 8081, 8082: the first turn stores the
  result for \<open>127.0.0.1:8080\<close> and adds the string \<open>127.0.0.1:8081\<close> to \<open>targets\<close>; the
  next turn pops that string and raises ValueError at \<open>primary, failover = target\<close>, so
  \<open>resolve_targets\<close> returns nothing and no entry for 8081 or 8082 is ever stored.
\<close>

theorem chain_discovery_raises:
  "resolve_targets chain_env (\<lambda>n. 0) [Tuple (Some ''127.0.0.1:8080'') None] = Inl ValueError
   \<and> resolve_loop chain_env (\<lambda>n. 0) 0 (initial [Tuple (Some ''127.0.0.1:8080'') None])
       = Inl (ValueError,
           \<lparr>targets = [], visited = {Some ''127.0.0.1:8080''},
            details = [''127.0.0.1:8080'' \<mapsto>
                         \<lparr>usage_info = UList [EDict [(''name'', ''127.0.0.1:8081'')]],
                          systemctl_service = {}\<rparr>],
            processed_pids = {},
            calls = [Port_probe ''127.0.0.1'' ''8080''],
            popped = [Tuple (Some ''127.0.0.1:8080'') None, Str ''127.0.0.1:8081'']\<rparr>)"
  by (simp add: resolve_targets_def run_simps chain_env_def)

text \<open>
  C3. For a failover pair, only the primary is probed and added to \<open>visited\<close>; the backup
  is no key of \<open>details\<close> and is not added to \<open>targets\<close>.

  For one turn on the pair, in any state: the outcome is the same as for the pair with
  no backup; \<open>visited\<close> gains the primary only; the one probe that is run is the probe of
  the primary; the only key that may be new in \<open>details\<close> is the key of the primary; and
  the only entries that may be new in \<open>targets\<close> are discovered strings. For a whole run
  from the input \<open>ts\<close>, however it ends: every element of \<open>visited\<close> is the primary of an
  entry of \<open>ts\<close>, every key of \<open>details\<close> is the key of such a primary, every probe is the
  probe of such a primary, and every entry that is ever popped or left on the frontier is
  an entry of \<open>ts\<close> or a discovered string.
\<close>

theorem failover_backup_never_probed:
  "resolve_one env s (Tuple (Some primary) (Some failover))
     = resolve_one env s (Tuple (Some primary) None)
   \<and> visited (final (resolve_one env s (Tuple (Some primary) (Some failover))))
       = insert (Some primary) (visited s)
   \<and> filter is_probe (calls (final (resolve_one env s (Tuple (Some primary) (Some failover)))))
       = filter is_probe (calls s) @ (case probe_address primary of None \<Rightarrow> [] | Some c \<Rightarrow> [c])
   \<and> dom (details (final (resolve_one env s (Tuple (Some primary) (Some failover)))))
       \<subseteq> insert (target_key primary) (dom (details s))
   \<and> set (targets (final (resolve_one env s (Tuple (Some primary) (Some failover)))))
       \<subseteq> set (targets s) \<union> Str ` Collect discovered_form
   \<and> visited (final (resolve_loop env sched 0 (initial ts))) \<subseteq> set (primaries ts)
   \<and> dom (details (final (resolve_loop env sched 0 (initial ts))))
       \<subseteq> target_key ` {p. Some p \<in> set (primaries ts)}
   \<and> set (filter is_probe (calls (final (resolve_loop env sched 0 (initial ts)))))
       \<subseteq> {c. \<exists>t \<in> set ts. c \<in> set (probes_of t)}
   \<and> set (popped (final (resolve_loop env sched 0 (initial ts))))
         \<union> set (targets (final (resolve_loop env sched 0 (initial ts))))
       \<subseteq> set ts \<union> Str ` Collect discovered_form"
proof -
  let ?t = "Tuple (Some primary) (Some failover)"
  have a: "resolve_one env s ?t = resolve_one env s (Tuple (Some primary) None)"
    by (rule tuple_failover_irrelevant)
  have b: "visited (final (resolve_one env s ?t)) = insert (Some primary) (visited s)"
    by (simp add: resolve_one_visited)
  have c: "filter is_probe (calls (final (resolve_one env s ?t)))
       = filter is_probe (calls s) @ (case probe_address primary of None \<Rightarrow> [] | Some c \<Rightarrow> [c])"
    by (simp add: resolve_one_probes probes_of_def)
  have d: "dom (details (final (resolve_one env s ?t)))
       \<subseteq> insert (target_key primary) (dom (details s))"
    using resolve_one_keys[of env s ?t] by auto
  have e: "set (targets (final (resolve_one env s ?t)))
       \<subseteq> set (targets s) \<union> Str ` Collect discovered_form"
    by (rule resolve_one_targets(1))
  have r: "reach (set ts) (final (resolve_loop env sched 0 (initial ts)))"
    by (rule reach_run)
  have f: "visited (final (resolve_loop env sched 0 (initial ts))) \<subseteq> set (primaries ts)"
    using r unfolding reach_def primaries_set by (elim conjE)
  have g: "dom (details (final (resolve_loop env sched 0 (initial ts))))
       \<subseteq> target_key ` {p. Some p \<in> set (primaries ts)}"
    using r unfolding reach_def primaries_set by (elim conjE)
  have h: "set (filter is_probe (calls (final (resolve_loop env sched 0 (initial ts)))))
       \<subseteq> {c. \<exists>t \<in> set ts. c \<in> set (probes_of t)}"
    using r unfolding reach_def by (elim conjE)
  have i: "set (popped (final (resolve_loop env sched 0 (initial ts))))
         \<union> set (targets (final (resolve_loop env sched 0 (initial ts))))
       \<subseteq> set ts \<union> Str ` Collect discovered_form"
    using r unfolding reach_def by (elim conjE) (simp add: Un_commute)
  show ?thesis by (intro conjI a b c d e f g h i)
qed

text \<open>
  Witness for C3: the pair of 9000 and 9001 with two siblings, under \<open>example_os\<close>. The
  backup 9001 is not visited, the keys and the probes are those of the three primaries.
\<close>

theorem failover_backup_never_probed_witness:
  "visited (final (resolve_one (source_env example_os) (initial [])
        (Tuple (Some ''http://127.0.0.1:9000'') (Some ''http://127.0.0.1:9001''))))
       = {Some ''http://127.0.0.1:9000''}
   \<and> Some ''http://127.0.0.1:9001''
       \<notin> visited (final (resolve_loop (source_env example_os) (\<lambda>n. 0) 0 (initial sibling_targets)))
   \<and> dom (details (final (resolve_loop (source_env example_os) (\<lambda>n. 0) 0 (initial sibling_targets))))
       = {''127.0.0.1:9000'', ''unix:/run/app.sock'', ''127.0.0.1:3000''}
   \<and> filter is_probe
        (calls (final (resolve_loop (source_env example_os) (\<lambda>n. 0) 0 (initial sibling_targets))))
       = [Port_probe ''127.0.0.1'' ''9000'', Socket_probe ''/run/app.sock'',
          Port_probe ''127.0.0.1'' ''3000'']"
proof -
  note w = failover_backup_never_probed[of "source_env example_os" "initial []"
      "''http://127.0.0.1:9000''" "''http://127.0.0.1:9001''" "\<lambda>n. 0" sibling_targets]
  have 1: "visited (final (resolve_one (source_env example_os) (initial [])
        (Tuple (Some ''http://127.0.0.1:9000'') (Some ''http://127.0.0.1:9001''))))
       = {Some ''http://127.0.0.1:9000''}"
    using conjunct1[OF conjunct2[OF w]] by (simp add: initial_def)
  from w have f: "visited (final (resolve_loop (source_env example_os) (\<lambda>n. 0) 0
      (initial sibling_targets))) \<subseteq> set (primaries sibling_targets)"
    by (elim conjE)
  have 2: "Some ''http://127.0.0.1:9001''
       \<notin> visited (final (resolve_loop (source_env example_os) (\<lambda>n. 0) 0 (initial sibling_targets)))"
    using f by (auto simp: sibling_targets_def)
  have 3: "dom (details (final (resolve_loop (source_env example_os) (\<lambda>n. 0) 0 (initial sibling_targets))))
       = {''127.0.0.1:9000'', ''unix:/run/app.sock'', ''127.0.0.1:3000''}"
    unfolding sibling_final by auto
  have 4: "filter is_probe
        (calls (final (resolve_loop (source_env example_os) (\<lambda>n. 0) 0 (initial sibling_targets))))
       = [Port_probe ''127.0.0.1'' ''9000'', Socket_probe ''/run/app.sock'',
          Port_probe ''127.0.0.1'' ''3000'']"
    unfolding sibling_final by simp
  show ?thesis by (intro conjI 1 2 3 4)
qed

text \<open>
  C4. Every entry that is popped must unpack into two components: an entry that does not
  raises ValueError at the unpacking and the turn does nothing else. The discovery step
  adds plain strings: every entry that a turn adds to \<open>targets\<close> is a string of the
  discovered form, its length is not 2, and popping it in any state raises ValueError.
\<close>

theorem discovered_string_raises_ValueError:
  "(\<not> unpackable t \<longrightarrow> resolve_one env s t = Inl (ValueError, s))
   \<and> (length a \<noteq> 2 \<longrightarrow> resolve_one env s (Str a) = Inl (ValueError, s))
   \<and> (\<forall>x \<in> set (targets (final (resolve_one env s t))) - set (targets s).
        \<exists>a. x = Str a \<and> discovered_form a \<and> length a \<noteq> 2
          \<and> (\<forall>s'. resolve_one env s' x = Inl (ValueError, s')))"
proof (intro conjI impI ballI)
  show "\<not> unpackable t \<Longrightarrow> resolve_one env s t = Inl (ValueError, s)"
    by (rule resolve_one_not_unpackable)
  show "length a \<noteq> 2 \<Longrightarrow> resolve_one env s (Str a) = Inl (ValueError, s)"
    by (rule resolve_one_not_unpackable) simp
next
  fix x assume "x \<in> set (targets (final (resolve_one env s t))) - set (targets s)"
  then obtain a where a: "x = Str a" "discovered_form a"
    using resolve_one_targets(1)[of env s t] by auto
  then have "length a \<noteq> 2" using discovered_form_length by fastforce
  then show "\<exists>a. x = Str a \<and> discovered_form a \<and> length a \<noteq> 2
          \<and> (\<forall>s'. resolve_one env s' x = Inl (ValueError, s'))"
    using a by (auto intro: resolve_one_not_unpackable)
qed

text \<open>
  Witness for C4: the turn on 8080 under \<open>chain_env\<close> adds the string \<open>127.0.0.1:8081\<close>,
  and the turn on that string raises ValueError and leaves the state as it was.
\<close>

theorem discovered_string_raises_ValueError_witness:
  "resolve_one chain_env (initial []) (Str ''127.0.0.1:8081'') = Inl (ValueError, initial [])
   \<and> targets (final (resolve_one chain_env (initial []) (Tuple (Some ''127.0.0.1:8080'') None)))
       = [Str ''127.0.0.1:8081'']
   \<and> (\<exists>a. Str ''127.0.0.1:8081'' = Str a \<and> discovered_form a \<and> length a \<noteq> 2
         \<and> resolve_one chain_env (initial []) (Str ''127.0.0.1:8081'') = Inl (ValueError, initial []))"
proof -
  have t: "targets (final (resolve_one chain_env (initial []) (Tuple (Some ''127.0.0.1:8080'') None)))
       = [Str ''127.0.0.1:8081'']"
    by (simp add: run_simps chain_env_def)
  note w1 = discovered_string_raises_ValueError[of "Str ''127.0.0.1:8081''" chain_env "initial []"
      "''127.0.0.1:8081''"]
  note w2 = discovered_string_raises_ValueError[of "Tuple (Some ''127.0.0.1:8080'') None" chain_env
      "initial []" "''127.0.0.1:8081''"]
  have 1: "resolve_one chain_env (initial []) (Str ''127.0.0.1:8081'') = Inl (ValueError, initial [])"
    using w1 by simp
  have "Str ''127.0.0.1:8081'' \<in> set (targets (final (resolve_one chain_env (initial [])
          (Tuple (Some ''127.0.0.1:8080'') None)))) - set (targets (initial []))"
    using t by (simp add: initial_def)
  with w2 have "\<exists>a. Str ''127.0.0.1:8081'' = Str a \<and> discovered_form a \<and> length a \<noteq> 2
          \<and> (\<forall>s'. resolve_one chain_env s' (Str ''127.0.0.1:8081'') = Inl (ValueError, s'))"
    by blast
  then show ?thesis using 1 t by blast
qed

text \<open>
  C5. When two distinct entries have primaries with the same key, the later turn
  overwrites the record of the earlier one and no exception comes from the key being
  there: a turn that returns stores, under the key of its primary, the result of the probe
  it ran itself, and leaves every other key as it was, whatever \<open>details\<close> held before; and
  whether a turn raises does not depend on \<open>details\<close>.
\<close>

theorem later_write_overwrites:
  "(resolve_one env s t = Inr s' \<and> unpack t = Inr (Some target, failover) \<longrightarrow>
      (\<exists>usage s3 svcs. probe env s target = Inr (target_key target, usage, s3)
         \<and> details s' = (details s)(target_key target \<mapsto>
               \<lparr>usage_info = usage, systemctl_service = svcs\<rparr>)))
   \<and> isl (resolve_one env (s\<lparr>details := d\<rparr>) t) = isl (resolve_one env s t)"
  using resolve_one_details resolve_one_isl_details by blast

text \<open>
  Witness for C5: two distinct entries with the primary \<open>unix:/run/app.sock\<close> under
  \<open>changing_os\<close>. The first probe lists pid 101, the second pid 202; the run returns and
  the record holds the second probe.
\<close>

theorem later_write_overwrites_witness:
  "resolve_one (source_env changing_os) overwrite_before
     (Tuple (Some ''unix:/run/app.sock'') (Some ''http://127.0.0.1:9001'')) = Inr overwrite_after
   \<and> details overwrite_before ''unix:/run/app.sock''
       = Some \<lparr>usage_info = UList [EStr ''101''],
               systemctl_service = {''Error finding service: list index out of range''}\<rparr>
   \<and> (\<exists>svcs. details overwrite_after
         = (details overwrite_before)(''unix:/run/app.sock'' \<mapsto>
              \<lparr>usage_info = UList [EStr ''202''], systemctl_service = svcs\<rparr>))
   \<and> resolve_targets (source_env changing_os) (\<lambda>n. 0)
        [Tuple (Some ''unix:/run/app.sock'') None,
         Tuple (Some ''unix:/run/app.sock'') (Some ''http://127.0.0.1:9001'')]
       = Inr (details overwrite_after)
   \<and> \<not> isl (resolve_one (source_env changing_os) (overwrite_before\<lparr>details := Map.empty\<rparr>)
        (Tuple (Some ''unix:/run/app.sock'') (Some ''http://127.0.0.1:9001'')))"
proof -
  let ?t = "Tuple (Some ''unix:/run/app.sock'') (Some ''http://127.0.0.1:9001'')"
  note w = later_write_overwrites[of "source_env changing_os" overwrite_before ?t overwrite_after
      "''unix:/run/app.sock''" "Some ''http://127.0.0.1:9001''" Map.empty]
  have p: "probe (source_env changing_os) overwrite_before ''unix:/run/app.sock''
      = Inr (''unix:/run/app.sock'', UList [EStr ''202''],
          overwrite_before\<lparr>calls := calls overwrite_before @ [Socket_probe ''/run/app.sock'']\<rparr>)"
    by (simp add: probe_def source_simps changing_os_def overwrite_before_def)
  have k: "target_key ''unix:/run/app.sock'' = ''unix:/run/app.sock''"
    by (simp add: target_key_def)
  have 1: "\<exists>svcs. details overwrite_after
         = (details overwrite_before)(''unix:/run/app.sock'' \<mapsto>
              \<lparr>usage_info = UList [EStr ''202''], systemctl_service = svcs\<rparr>)"
    using w overwrite_turn p k by auto
  have 2: "\<not> isl (resolve_one (source_env changing_os) (overwrite_before\<lparr>details := Map.empty\<rparr>) ?t)"
    using w overwrite_turn by simp
  have 3: "details overwrite_before ''unix:/run/app.sock''
       = Some \<lparr>usage_info = UList [EStr ''101''],
               systemctl_service = {''Error finding service: list index out of range''}\<rparr>"
    by (simp add: overwrite_before_def)
  have 4: "resolve_targets (source_env changing_os) (\<lambda>n. 0)
        [Tuple (Some ''unix:/run/app.sock'') None, ?t] = Inr (details overwrite_after)"
    by (simp add: resolve_targets_def overwrite_run)
  show ?thesis using overwrite_turn 1 2 3 4 by blast
qed

text \<open>
  C6. In one run each pid is looked up by \<open>get_systemctl_service\<close> at most once, and it is
  marked in \<open>processed_pids\<close> whatever the lookup returned: for every environment,
  schedule and input, the pids of the lookups in the trace of the run are distinct and
  are exactly \<open>processed_pids\<close>; and the loop over the entries of one probe result leaves
  every non-empty string entry in \<open>processed_pids\<close>.
\<close>

theorem service_lookup_once_per_pid:
  "distinct (lookups (calls (final (resolve_loop env sched 0 (initial ts)))))
   \<and> set (lookups (calls (final (resolve_loop env sched 0 (initial ts)))))
       = processed_pids (final (resolve_loop env sched 0 (initial ts)))
   \<and> (service_loop env es (svcs, s) = (svcs', s') \<longrightarrow>
        processed_pids s' = processed_pids s \<union> {pid. EStr pid \<in> set es \<and> pid \<noteq> []})"
proof -
  let ?J = "\<lambda>s::state. distinct (lookups (calls s)) \<and> set (lookups (calls s)) = processed_pids s"
  have "?J (final (resolve_loop env sched 0 (initial ts)))"
  proof (rule resolve_loop_invariant[where P = ?J])
    show "?J (initial ts)" by (simp add: initial_def)
  next
    fix s k assume "?J s" "targets s \<noteq> []"
    then show "?J (final (resolve_one env (snd (pop k s)) (fst (pop k s))))"
      by (intro resolve_one_lookups) (simp_all add: pop_simps)
  qed
  then show ?thesis using service_loop_pids by blast
qed

text \<open>
  Witness for C6: under \<open>example_os\<close> two probes list the pids 101 and 102; each is looked
  up once. A probe result that lists 101 twice gives one lookup.
\<close>

theorem service_lookup_once_per_pid_witness:
  "distinct (lookups (calls (final (resolve_loop (source_env example_os) (\<lambda>n. 0) 0
         (initial sibling_targets)))))
   \<and> lookups (calls (final (resolve_loop (source_env example_os) (\<lambda>n. 0) 0 (initial sibling_targets))))
       = [''101'', ''102'']
   \<and> processed_pids (final (resolve_loop (source_env example_os) (\<lambda>n. 0) 0 (initial sibling_targets)))
       = {''101'', ''102''}
   \<and> processed_pids (snd (service_loop (source_env example_os) [EStr ''101'', EStr '''', EStr ''101'']
        ({}, initial []))) = {''101''}"
proof -
  let ?es = "[EStr ''101'', EStr '''', EStr ''101'']"
  let ?r = "service_loop (source_env example_os) ?es ({}, initial [])"
  note w = service_lookup_once_per_pid[of "source_env example_os" "\<lambda>n. 0" sibling_targets
      ?es "{}" "initial []" "fst ?r" "snd ?r"]
  have 1: "distinct (lookups (calls (final (resolve_loop (source_env example_os) (\<lambda>n. 0) 0
         (initial sibling_targets)))))"
    using w by (elim conjE)
  have 2: "lookups (calls (final (resolve_loop (source_env example_os) (\<lambda>n. 0) 0
      (initial sibling_targets)))) = [''101'', ''102'']"
    unfolding sibling_final by simp
  have 3: "processed_pids (final (resolve_loop (source_env example_os) (\<lambda>n. 0) 0
      (initial sibling_targets))) = {''101'', ''102''}"
    using conjunct1[OF conjunct2[OF w]] unfolding 2 by auto
  have "processed_pids (snd ?r)
      = processed_pids (initial []) \<union> {pid. EStr pid \<in> set ?es \<and> pid \<noteq> []}"
    by (rule mp[OF conjunct2[OF conjunct2[OF w]]]) simp
  then have 4: "processed_pids (snd ?r) = {''101''}"
    by (auto simp: initial_def)
  show ?thesis by (intro conjI 1 2 3 4)
qed

text \<open>
  C7, as stated: a probe error or a malformed probe result never makes the run raise, and
  the error is recorded in the record of the target. Two inputs show otherwise. When
  \<open>lsof\<close> prints a line that holds the text \<open>name\<close>, the probe result is a list with a
  string entry on which \<open>entry['name']\<close> raises TypeError: the run aborts, under both
  orders of popping, and no target gets a record. And when the socket probe raises, the
  record of the target holds the empty list and no error.
\<close>

theorem probe_error_aborts_counterexample:
  "resolve_targets (source_env naming_os) (\<lambda>n. 0)
     [Tuple (Some ''http://127.0.0.1:9000'') None, Tuple (Some ''http://127.0.0.1:3000'') None]
     = Inl TypeError
   \<and> resolve_targets (source_env naming_os) (\<lambda>n. 1)
       [Tuple (Some ''http://127.0.0.1:9000'') None, Tuple (Some ''http://127.0.0.1:3000'') None]
       = Inl TypeError
   \<and> details (final (resolve_loop (source_env failing_os) (\<lambda>n. 0) 0
         (initial [Tuple (Some ''unix:/run/app.sock'') None]))) ''unix:/run/app.sock''
       = Some \<lparr>usage_info = UList [], systemctl_service = {}\<rparr>"
  by (simp add: resolve_targets_def run_simps source_simps naming_os_def failing_os_def)

text \<open>
  C7, amended. When the command of a probe raises, \<open>check_port_usage\<close> answers with an
  error text and \<open>check_unix_socket_usage\<close> with the empty list; both answers are quiet,
  that is, the discovery step reads nothing from them and raises nothing. A turn whose
  probe result is quiet (every result that is no list is) returns: \<open>targets\<close> is as before,
  the probe result is the \<open>usage_info\<close> of the record of the target, the turn looks up
  exactly the non-empty string entries of a list result that were not looked up before
  (none for an error text), and the service list of the record is what these lookups
  returned. In every run in which each entry reaches a probe and every probe result is
  quiet, whichever probes fail, the run returns, every entry of the input is popped once,
  and \<open>details\<close> has a record for the key of every primary. Runs with a probe result that
  is not quiet are left open here.
\<close>

theorem probe_error_does_not_abort:
  "(run n [''sudo'', ''lsof'', ''-t'', ''-i'', ''@'' @ host @ '':'' @ port] = Inl e \<longrightarrow>
      check_port_usage run n host port
        = UStr (''Error checking port '' @ port @ '' on '' @ host @ '': '' @ e)
      \<and> quiet (check_port_usage run n host port))
   \<and> (run n [''sudo'', ''lsof'', ''-t'', socket_path] = Inl e \<longrightarrow>
        check_unix_socket_usage run n socket_path = UList []
        \<and> quiet (check_unix_socket_usage run n socket_path))
   \<and> (unpack t = Inr (Some target, failover) \<and> probe env s target = Inr (key, usage, s3)
        \<and> quiet usage \<longrightarrow>
        (\<exists>s' new. resolve_one env s t = Inr s' \<and> targets s' = targets s
           \<and> visited s' = insert (Some target) (visited s)
           \<and> calls s' = calls s3 @ new \<and> filter is_probe new = []
           \<and> set (lookups new)
               = (case usage of
                    UStr msg \<Rightarrow> {}
                  | UList es \<Rightarrow>
                      {pid. EStr pid \<in> set es \<and> pid \<noteq> [] \<and> pid \<notin> processed_pids s})
           \<and> processed_pids s' = processed_pids s \<union> set (lookups new)
           \<and> details s' = (details s)(target_key target \<mapsto>
                 \<lparr>usage_info = usage,
                  systemctl_service = services_of env (length (calls s3)) new\<rparr>)))
   \<and> (quiet_env env \<and> (\<forall>t \<in> set ts. probeable t) \<longrightarrow>
        (\<exists>s'. resolve_loop env sched 0 (initial ts) = Inr s' \<and> targets s' = []
           \<and> set (popped s') = set ts \<and> distinct (popped s')
           \<and> dom (details s') = target_key ` {p. Some p \<in> set (primaries ts)}))"
proof (intro conjI impI)
  assume "run n [''sudo'', ''lsof'', ''-t'', ''-i'', ''@'' @ host @ '':'' @ port] = Inl e"
  then show "check_port_usage run n host port
        = UStr (''Error checking port '' @ port @ '' on '' @ host @ '': '' @ e)"
    "quiet (check_port_usage run n host port)"
    by (simp_all add: check_port_usage_def quiet_def)
next
  assume "run n [''sudo'', ''lsof'', ''-t'', socket_path] = Inl e"
  then show "check_unix_socket_usage run n socket_path = UList []"
    "quiet (check_unix_socket_usage run n socket_path)"
    by (simp_all add: check_unix_socket_usage_def quiet_def)
next
  assume "unpack t = Inr (Some target, failover) \<and> probe env s target = Inr (key, usage, s3)
        \<and> quiet usage"
  then show "\<exists>s' new. resolve_one env s t = Inr s' \<and> targets s' = targets s
           \<and> visited s' = insert (Some target) (visited s)
           \<and> calls s' = calls s3 @ new \<and> filter is_probe new = []
           \<and> set (lookups new)
               = (case usage of
                    UStr msg \<Rightarrow> {}
                  | UList es \<Rightarrow>
                      {pid. EStr pid \<in> set es \<and> pid \<noteq> [] \<and> pid \<notin> processed_pids s})
           \<and> processed_pids s' = processed_pids s \<union> set (lookups new)
           \<and> details s' = (details s)(target_key target \<mapsto>
                 \<lparr>usage_info = usage,
                  systemctl_service = services_of env (length (calls s3)) new\<rparr>)"
    using resolve_one_quiet_record by blast
next
  assume a: "quiet_env env \<and> (\<forall>t \<in> set ts. probeable t)"
  then have "\<forall>t \<in> set (targets (initial ts)). probeable t" by (simp add: initial_def)
  from resolve_loop_quiet[OF _ this, of env sched 0] a
  obtain s' where s': "resolve_loop env sched 0 (initial ts) = Inr s'" "targets s' = []"
    "dom (details s') = dom (details (initial ts))
       \<union> target_key ` {p. Some p \<in> set (primaries (targets (initial ts)))}"
    by blast
  have "set (primaries (remdups ts)) = set (primaries ts)"
    using primaries_member[of _ "remdups ts"] primaries_member[of _ ts] by auto
  then have "dom (details s') = target_key ` {p. Some p \<in> set (primaries ts)}"
    using s'(3) by (simp add: initial_def)
  moreover have "set (popped s') = set ts" "distinct (popped s')"
    using resolve_loop_quiet_popped[OF _ _ s'(1)] a by blast+
  ultimately show "\<exists>s'. resolve_loop env sched 0 (initial ts) = Inr s' \<and> targets s' = []
           \<and> set (popped s') = set ts \<and> distinct (popped s')
           \<and> dom (details s') = target_key ` {p. Some p \<in> set (primaries ts)}"
    using s'(1,2) by blast
qed

text \<open>
  Witness for C7: under \<open>example_os\<close> the probe of port 9000 fails; its record holds the
  error text and no service. The turn on the socket looks up the pids 101 and 102. The run
  over the three siblings returns with three records.
\<close>

theorem probe_error_does_not_abort_witness:
  "check_port_usage example_os 0 ''127.0.0.1'' ''9000''
     = UStr ''Error checking port 9000 on 127.0.0.1: [Errno 2] No such file or directory''
   \<and> check_unix_socket_usage failing_os 0 ''/run/app.sock'' = UList []
   \<and> (\<exists>s'. resolve_one (source_env example_os) (initial [])
              (Tuple (Some ''http://127.0.0.1:9000'') (Some ''http://127.0.0.1:9001'')) = Inr s'
         \<and> targets s' = [] \<and> processed_pids s' = {}
         \<and> details s' = [''127.0.0.1:9000'' \<mapsto>
              \<lparr>usage_info = UStr ''Error checking port 9000 on 127.0.0.1: [Errno 2] No such file or directory'',
               systemctl_service = {}\<rparr>])
   \<and> (\<exists>s'. resolve_one (source_env example_os) (initial [])
              (Tuple (Some ''unix:/run/app.sock'') None) = Inr s'
         \<and> targets s' = [] \<and> processed_pids s' = {''101'', ''102''})
   \<and> (\<exists>s'. resolve_loop (source_env example_os) (\<lambda>n. 0) 0 (initial sibling_targets) = Inr s'
         \<and> set (popped s') = set sibling_targets
         \<and> dom (details s') = {''127.0.0.1:9000'', ''unix:/run/app.sock'', ''127.0.0.1:3000''})"
proof -
  let ?t = "Tuple (Some ''http://127.0.0.1:9000'') (Some ''http://127.0.0.1:9001'')"
  let ?u = "Tuple (Some ''unix:/run/app.sock'') None"
  let ?msg = "''Error checking port 9000 on 127.0.0.1: [Errno 2] No such file or directory''"
  let ?s3 = "(initial [])\<lparr>calls := calls (initial []) @ [Port_probe ''127.0.0.1'' ''9000'']\<rparr>"
  let ?s3u = "(initial [])\<lparr>calls := calls (initial []) @ [Socket_probe ''/run/app.sock'']\<rparr>"
  let ?es = "[EStr ''101'', EStr ''102'']"
  have i: "targets (initial []) = []" "processed_pids (initial []) = {}"
    "details (initial []) = Map.empty"
    by (simp_all add: initial_def)
  have p: "probe (source_env example_os) (initial []) ''http://127.0.0.1:9000''
      = Inr (''127.0.0.1:9000'', UStr ?msg, ?s3)"
    by (simp add: probe_def source_simps example_os_def initial_def)
  have pu: "probe (source_env example_os) (initial []) ''unix:/run/app.sock''
      = Inr (''unix:/run/app.sock'', UList ?es, ?s3u)"
    by (simp add: probe_def source_simps example_os_def initial_def)
  have qu: "quiet (UList ?es)" by (simp add: quiet_def)
  have qs: "quiet (UStr ?msg)" by (simp add: quiet_def)
  note w = probe_error_does_not_abort[where run = example_os and n = 0 and host = "''127.0.0.1''"
      and port = "''9000''" and e = "''[Errno 2] No such file or directory''"
      and socket_path = "''/run/app.sock''" and t = ?t and target = "''http://127.0.0.1:9000''"
      and failover = "Some ''http://127.0.0.1:9001''" and env = "source_env example_os"
      and s = "initial []" and key = "''127.0.0.1:9000''" and usage = "UStr ?msg" and ?s3.0 = ?s3
      and ts = sibling_targets and sched = "\<lambda>n. 0"]
  note v = probe_error_does_not_abort[where run = failing_os and n = 0 and host = "''127.0.0.1''"
      and port = "''9000''" and e = "''lsof failed''"
      and socket_path = "''/run/app.sock''" and t = ?u and target = "''unix:/run/app.sock''"
      and failover = None and env = "source_env example_os"
      and s = "initial []" and key = "''unix:/run/app.sock''"
      and usage = "UList ?es" and ?s3.0 = ?s3u
      and ts = sibling_targets and sched = "\<lambda>n. 0"]
  have k: "target_key ''http://127.0.0.1:9000'' = ''127.0.0.1:9000''"
    by (simp add: target_key_def)
  have e1: "example_os 0 [''sudo'', ''lsof'', ''-t'', ''-i'', ''@'' @ ''127.0.0.1'' @ '':'' @ ''9000'']
      = Inl ''[Errno 2] No such file or directory''"
    by (simp add: example_os_def)
  have 1: "check_port_usage example_os 0 ''127.0.0.1'' ''9000'' = UStr ?msg"
    using conjunct1[OF mp[OF conjunct1[OF w] e1]] by simp
  have e2: "failing_os 0 [''sudo'', ''lsof'', ''-t'', ''/run/app.sock''] = Inl ''lsof failed''"
    by (simp add: failing_os_def)
  have 2: "check_unix_socket_usage failing_os 0 ''/run/app.sock'' = UList []"
    using conjunct1[OF mp[OF conjunct1[OF conjunct2[OF v]] e2]] .
  have h3: "unpack ?t = Inr (Some ''http://127.0.0.1:9000'', Some ''http://127.0.0.1:9001'')
      \<and> probe (source_env example_os) (initial []) ''http://127.0.0.1:9000''
          = Inr (''127.0.0.1:9000'', UStr ?msg, ?s3) \<and> quiet (UStr ?msg)"
    using p qs by simp
  from mp[OF conjunct1[OF conjunct2[OF conjunct2[OF w]]] h3]
  obtain s' new where a: "resolve_one (source_env example_os) (initial []) ?t = Inr s'"
    and a2: "targets s' = targets (initial [])"
    and a3: "filter is_probe new = []"
    and a4: "set (lookups new) = (case UStr ?msg of UStr msg \<Rightarrow> {}
           | UList es \<Rightarrow> {pid. EStr pid \<in> set es \<and> pid \<noteq> [] \<and> pid \<notin> processed_pids (initial [])})"
    and a5: "processed_pids s' = processed_pids (initial []) \<union> set (lookups new)"
    and a6: "details s' = (details (initial []))(target_key ''http://127.0.0.1:9000'' \<mapsto>
           \<lparr>usage_info = UStr ?msg,
            systemctl_service = services_of (source_env example_os) (length (calls ?s3)) new\<rparr>)"
    by blast
  have a4': "set (lookups new) = {}" using a4 by simp
  have n: "new = []" using no_lookups_Nil[OF a3 a4'] .
  have "targets s' = []" using a2 i by simp
  moreover have "processed_pids s' = {}" using a5 a4' i by simp
  moreover have "details s' = [''127.0.0.1:9000'' \<mapsto>
      \<lparr>usage_info = UStr ?msg, systemctl_service = {}\<rparr>]"
    unfolding a6 n k i by simp
  ultimately have 3: "\<exists>s'. resolve_one (source_env example_os) (initial []) ?t = Inr s'
         \<and> targets s' = [] \<and> processed_pids s' = {}
         \<and> details s' = [''127.0.0.1:9000'' \<mapsto> \<lparr>usage_info = UStr ?msg, systemctl_service = {}\<rparr>]"
    using a by blast
  have h4: "unpack ?u = Inr (Some ''unix:/run/app.sock'', None)
      \<and> probe (source_env example_os) (initial []) ''unix:/run/app.sock''
          = Inr (''unix:/run/app.sock'', UList ?es, ?s3u) \<and> quiet (UList ?es)"
    using pu qu by simp
  from mp[OF conjunct1[OF conjunct2[OF conjunct2[OF v]]] h4]
  obtain s'' new' where b: "resolve_one (source_env example_os) (initial []) ?u = Inr s''"
    and b2: "targets s'' = targets (initial [])"
    and b4: "set (lookups new') = (case UList ?es of UStr msg \<Rightarrow> {}
           | UList es \<Rightarrow> {pid. EStr pid \<in> set es \<and> pid \<noteq> [] \<and> pid \<notin> processed_pids (initial [])})"
    and b5: "processed_pids s'' = processed_pids (initial []) \<union> set (lookups new')"
    by blast
  have "set (lookups new') = {''101'', ''102''}"
    unfolding b4 i by auto
  then have "processed_pids s'' = {''101'', ''102''}" using b5 i by simp
  moreover have "targets s'' = []" using b2 i by simp
  ultimately have 4: "\<exists>s'. resolve_one (source_env example_os) (initial []) ?u = Inr s'
         \<and> targets s' = [] \<and> processed_pids s' = {''101'', ''102''}"
    using b by blast
  have h5: "quiet_env (source_env example_os) \<and> (\<forall>t \<in> set sibling_targets. probeable t)"
    using quiet_example probeable_siblings by blast
  from mp[OF conjunct2[OF conjunct2[OF conjunct2[OF w]]] h5]
  obtain s5 where c: "resolve_loop (source_env example_os) (\<lambda>n. 0) 0 (initial sibling_targets) = Inr s5"
    and c2: "set (popped s5) = set sibling_targets"
    and c3: "dom (details s5) = target_key ` {p. Some p \<in> set (primaries sibling_targets)}"
    by blast
  have 5: "\<exists>s'. resolve_loop (source_env example_os) (\<lambda>n. 0) 0 (initial sibling_targets) = Inr s'
         \<and> set (popped s') = set sibling_targets
         \<and> dom (details s') = {''127.0.0.1:9000'', ''unix:/run/app.sock'', ''127.0.0.1:3000''}"
    using c c2 c3 unfolding sibling_keys by blast
  show ?thesis by (intro conjI 1 2 3 4 5)
qed

text \<open>
  C8, as stated: a value that begins with the http scheme becomes the primary. The code
  tests for a double quote followed by \<open>http\<close>: the common unquoted form of the directive
  gives \<open>(None, None)\<close>.
\<close>

theorem proxypass_unquoted_http_counterexample:
  "prefix ''http'' ''http://127.0.0.1:8080/''
   \<and> proxypass_target ''ProxyPass / http://127.0.0.1:8080/'' = Inr (None, None)"
  by (simp add: proxypass_target_def split_ws_def isspace_def dquote_def)

text \<open>
  C8, amended. \<open>proxypass_target\<close> never fails. The first part of the line (in the sense
  of \<open>line.split()\<close>) that has a \<open>|\<close>, or begins with a double quote followed by \<open>http\<close>
  or by \<open>unix:\<close>, decides: with a \<open>|\<close>, the result is the first two \<open>|\<close>-separated
  fields, each stripped of double quotes at both ends; otherwise it is the part stripped
  of double quotes, with no backup. With no such part the result is \<open>(None, None)\<close>.
\<close>

theorem proxypass_target_never_fails:
  "proxypass_target line =
     Inr (case find target_part (split_ws line) of
            None \<Rightarrow> (None, None)
          | Some part \<Rightarrow>
              (if CHR ''|'' \<in> set part
               then (Some (strip_char dquote (split_on CHR ''|'' part ! 0)),
                     Some (strip_char dquote (split_on CHR ''|'' part ! 1)))
               else (Some (strip_char dquote part), None)))
   \<and> (\<forall>part. CHR ''|'' \<in> set part \<longrightarrow> 2 \<le> length (split_on CHR ''|'' part))"
proof
  show "proxypass_target line =
     Inr (case find target_part (split_ws line) of
            None \<Rightarrow> (None, None)
          | Some part \<Rightarrow>
              (if CHR ''|'' \<in> set part
               then (Some (strip_char dquote (split_on CHR ''|'' part ! 0)),
                     Some (strip_char dquote (split_on CHR ''|'' part ! 1)))
               else (Some (strip_char dquote part), None)))"
    unfolding proxypass_target_def by (rule proxypass_parts_find)
  show "\<forall>part. CHR ''|'' \<in> set part \<longrightarrow> 2 \<le> length (split_on CHR ''|'' part)"
    using split_on_sep_two by fastforce
qed

text \<open>Witness for C8: a quoted failover directive.\<close>

theorem proxypass_target_never_fails_witness:
  "proxypass_target (''ProxyPass / '' @ [dquote] @ ''http://127.0.0.1:9000'' @ [dquote] @ ''|''
       @ [dquote] @ ''http://127.0.0.1:9001'' @ [dquote])
     = Inr (Some ''http://127.0.0.1:9000'', Some ''http://127.0.0.1:9001'')
   \<and> 2 \<le> length (split_on CHR ''|'' ''a|b'')"
  using proxypass_target_never_fails[of "''ProxyPass / '' @ [dquote] @ ''http://127.0.0.1:9000'' @ [dquote] @ ''|''
       @ [dquote] @ ''http://127.0.0.1:9001'' @ [dquote]"]
  by (simp add: split_ws_def isspace_def target_part_def dquote_def strip_char_def)




text \<open>
  C10, as stated: a failed socket probe returns the same value as a successful probe that
  finds no process. It does not: the failed probe returns the empty list, the probe with
  an empty output returns the list of one empty string, and the two records differ in
  \<open>usage_info\<close>.
\<close>

theorem unix_probe_error_distinguishable_counterexample:
  "check_unix_socket_usage failing_os 0 ''/run/app.sock'' = UList []
   \<and> check_unix_socket_usage silent_os 0 ''/run/app.sock'' = UList [EStr '''']
   \<and> check_unix_socket_usage failing_os 0 ''/run/app.sock''
       \<noteq> check_unix_socket_usage silent_os 0 ''/run/app.sock''
   \<and> map_option usage_info
        (details (final (resolve_loop (source_env failing_os) (\<lambda>n. 0) 0
           (initial [Tuple (Some ''unix:/run/app.sock'') None]))) ''unix:/run/app.sock'')
       = Some (UList [])
   \<and> map_option usage_info
        (details (final (resolve_loop (source_env silent_os) (\<lambda>n. 0) 0
           (initial [Tuple (Some ''unix:/run/app.sock'') None]))) ''unix:/run/app.sock'')
       = Some (UList [EStr ''''])"
  by (simp add: run_simps source_simps failing_os_def silent_os_def)

text \<open>
  C10, amended. When the command raises, \<open>check_unix_socket_usage\<close> returns the empty
  list; when it succeeds, the result is the non-empty list of the lines of its output, the
  list of one empty string for an empty output. It never returns an error text, where
  \<open>check_port_usage\<close> does, so the record of a socket target that was resolved always
  holds a list. For the empty list and for the list of one empty string alike, no service
  is looked up and nothing is discovered.
\<close>

theorem unix_probe_error_gives_empty_list:
  "(run t [''sudo'', ''lsof'', ''-t'', socket_path] = Inl e \<longrightarrow>
      check_unix_socket_usage run t socket_path = UList [])
   \<and> (run t [''sudo'', ''lsof'', ''-t'', socket_path] = Inr out \<longrightarrow>
        check_unix_socket_usage run t socket_path = UList (map EStr (split_on CHR 0x0A (strip out)))
        \<and> check_unix_socket_usage run t socket_path \<noteq> UList [])
   \<and> (run t [''sudo'', ''lsof'', ''-t'', socket_path] = Inr [] \<longrightarrow>
        check_unix_socket_usage run t socket_path = UList [EStr []])
   \<and> (\<forall>msg. check_unix_socket_usage run t socket_path \<noteq> UStr msg)
   \<and> (run t [''sudo'', ''lsof'', ''-t'', ''-i'', ''@'' @ host @ '':'' @ port] = Inl e \<longrightarrow>
        (\<exists>msg. check_port_usage run t host port = UStr msg))
   \<and> (resolve_one (source_env run) s (Tuple (Some (''unix:'' @ socket_path)) failover) = Inr s' \<longrightarrow>
        (\<exists>es svcs. details s' (''unix:'' @ socket_path)
           = Some \<lparr>usage_info = UList es, systemctl_service = svcs\<rparr>))
   \<and> service_loop env [] (svcs, s) = (svcs, s) \<and> service_loop env [EStr []] (svcs, s) = (svcs, s)
   \<and> discover [] s = Inr s \<and> discover [EStr []] s = Inr s"
proof (intro conjI impI allI)
  assume r: "resolve_one (source_env run) s (Tuple (Some (''unix:'' @ socket_path)) failover) = Inr s'"
  have k: "target_key (''unix:'' @ socket_path) = ''unix:'' @ socket_path"
    by (simp add: target_key_def)
  have u: "unpack (Tuple (Some (''unix:'' @ socket_path)) failover)
      = Inr (Some (''unix:'' @ socket_path), failover)" by simp
  from resolve_one_details[OF r u] obtain usage s3 svcs where
    p: "probe (source_env run) s (''unix:'' @ socket_path)
          = Inr (target_key (''unix:'' @ socket_path), usage, s3)"
    and d: "details s' = (details s)(target_key (''unix:'' @ socket_path) \<mapsto>
              \<lparr>usage_info = usage, systemctl_service = svcs\<rparr>)"
    by blast
  from p source_usage_strings(2)[of run] obtain xs where "usage = UList (map EStr xs)"
    by (auto simp: probe_def Let_def)
  then show "\<exists>es svcs. details s' (''unix:'' @ socket_path)
           = Some \<lparr>usage_info = UList es, systemctl_service = svcs\<rparr>"
    using d unfolding k by simp
qed (auto simp: check_unix_socket_usage_def check_port_usage_def split_on_not_Nil strip_def
    discover_def split: sum.splits)

text \<open>Witness for C10: the socket probe under \<open>failing_os\<close>, \<open>silent_os\<close> and
  \<open>changing_os\<close>.\<close>

theorem unix_probe_error_gives_empty_list_witness:
  "check_unix_socket_usage failing_os 0 ''/run/app.sock'' = UList []
   \<and> check_unix_socket_usage silent_os 0 ''/run/app.sock'' = UList [EStr '''']
   \<and> (\<exists>msg. check_port_usage failing_os 0 ''127.0.0.1'' ''9000'' = UStr msg)
   \<and> (\<exists>es svcs. details overwrite_after ''unix:/run/app.sock''
         = Some \<lparr>usage_info = UList es, systemctl_service = svcs\<rparr>)"
  using unix_probe_error_gives_empty_list[of failing_os 0 "''/run/app.sock''" "''lsof failed''" "''''"
      "''127.0.0.1''" "''9000''" "initial []" None "initial []" "source_env failing_os" "{}"]
    unix_probe_error_gives_empty_list[of silent_os 0 "''/run/app.sock''" "''lsof failed''" "''''"
      "''127.0.0.1''" "''9000''" "initial []" None "initial []" "source_env failing_os" "{}"]
    unix_probe_error_gives_empty_list[of changing_os 0 "''/run/app.sock''" "''lsof failed''" "''''"
      "''127.0.0.1''" "''9000''" overwrite_before "Some ''http://127.0.0.1:9001''" overwrite_after
      "source_env failing_os" "{}"]
    overwrite_turn
  by (simp add: failing_os_def silent_os_def strip_def)

end
